theory Spec2Isabelle
  imports Complex_Main "HOL-Library.Monad_Syntax"
begin

section \<open>Numbers\<close>

text \<open>
  The notebook computes in IEEE double precision. The model computes in the reals: every
  finite float is the real it denotes and no operation rounds, overflows or underflows.
  Of numpy's non-finite values only \<open>nan\<close> is represented, and only where
  \<open>monte_carlo_european\<close> leaves the reals in exact arithmetic (the square root of a
  negative step, the mean of no payoffs); there a value is a \<open>real option\<close> and
  \<open>None\<close> is \<open>nan\<close>. Where only overflow makes the program's value \<open>nan\<close> (\<open>0 * inf\<close>), the model
  has a real number. The signed infinities that \<open>black_scholes\<close> gets from a zero
  divisor or from the logarithm of a non-positive ratio are not represented: at such
  arguments the model has the values of HOL's total \<open>ln\<close> and \<open>/\<close>.
\<close>

datatype error =
    BroadcastError        \<comment> \<open>ValueError: operands could not be broadcast together\<close>
  | InvalidOptionType     \<comment> \<open>ValueError raised by the two pricers\<close>
  | ZeroDivisionError     \<comment> \<open>Python's float division by zero\<close>
  | NegativeDimensions    \<comment> \<open>ValueError: negative dimensions are not allowed\<close>

subsection \<open>The standard normal distribution (\<open>scipy.stats.norm\<close>)\<close>

text \<open>
  \<open>norm.pdf\<close> is the density \<open>exp (- x\<^sup>2 / 2) / sqrt (2 pi)\<close>; \<open>norm.cdf\<close> is
  \<open>(1 + erf (x / sqrt 2)) / 2\<close>, with the error function given by its power series.
\<close>

definition erf_coeff :: "nat \<Rightarrow> real" where
  "erf_coeff n = (- 1) ^ n / (fact n * (2 * real n + 1))"

definition erf :: "real \<Rightarrow> real" where
  "erf x = 2 / sqrt pi * (\<Sum>n. erf_coeff n * x ^ (2 * n + 1))"

definition norm_cdf :: "real \<Rightarrow> real" where
  "norm_cdf x = (1 + erf (x / sqrt 2)) / 2"

definition norm_pdf :: "real \<Rightarrow> real" where
  "norm_pdf x = exp (- (x\<^sup>2) / 2) / sqrt (2 * pi)"

section \<open>numpy arrays and broadcasting\<close>

text \<open>
  An array is its shape and its elements. Axes are listed from the last one to the first,
  in shapes and in indices alike, because numpy aligns shapes at the last axis when it
  broadcasts: the numpy shape \<open>(2, 3)\<close> is \<open>[3, 2]\<close> here, a scalar has the shape \<open>[]\<close>.
\<close>

record ndarray =
  nd_dims :: "nat list"
  nd_elem :: "nat list \<Rightarrow> real"

definition np_scalar :: "real \<Rightarrow> ndarray" where
  "np_scalar x = \<lparr>nd_dims = [], nd_elem = (\<lambda>idx. x)\<rparr>"

definition np_array1 :: "real list \<Rightarrow> ndarray" where
  "np_array1 xs =
     \<lparr>nd_dims = [length xs],
      nd_elem = (\<lambda>idx. case idx of [] \<Rightarrow> 0 | i # _ \<Rightarrow> if i < length xs then xs ! i else 0)\<rparr>"

text \<open>Every index of an array of the given shape.\<close>

fun indices :: "nat list \<Rightarrow> nat list list" where
  "indices [] = [[]]"
| "indices (n # ns) = concat (map (\<lambda>i. map ((#) i) (indices ns)) [0..<n])"

text \<open>
  Two shapes broadcast when, axis by axis from the last, the lengths are equal or one of
  them is 1; the shorter shape is extended by the other's leading axes.
\<close>

fun broadcast_dims :: "nat list \<Rightarrow> nat list \<Rightarrow> nat list option" where
  "broadcast_dims [] ys = Some ys"
| "broadcast_dims (x # xs) [] = Some (x # xs)"
| "broadcast_dims (x # xs) (y # ys) =
     (if x = y \<or> y = 1 then map_option ((#) x) (broadcast_dims xs ys)
      else if x = 1 then map_option ((#) y) (broadcast_dims xs ys)
      else None)"

text \<open>The index into an operand of shape \<open>ds\<close> that numpy pairs with a result index.\<close>

fun bc_index :: "nat list \<Rightarrow> nat list \<Rightarrow> nat list" where
  "bc_index [] idx = []"
| "bc_index (d # ds) [] = []"
| "bc_index (d # ds) (i # idx) = (if d = 1 then 0 else i) # bc_index ds idx"

definition bc_elem :: "ndarray \<Rightarrow> nat list \<Rightarrow> real" where
  "bc_elem a idx = nd_elem a (bc_index (nd_dims a) idx)"

definition bc_le :: "nat list \<Rightarrow> nat list \<Rightarrow> bool" where
  "bc_le s D \<longleftrightarrow> broadcast_dims s D = Some D"

text \<open>\<open>np.broadcast_shapes\<close> of several shapes.\<close>

fun broadcast_all :: "nat list list \<Rightarrow> nat list option" where
  "broadcast_all [] = Some []"
| "broadcast_all (s # ss) = broadcast_all ss \<bind> broadcast_dims s"

definition np_map :: "(real \<Rightarrow> real) \<Rightarrow> ndarray \<Rightarrow> ndarray" where
  "np_map f a = \<lparr>nd_dims = nd_dims a, nd_elem = (\<lambda>idx. f (nd_elem a idx))\<rparr>"

definition np_binop :: "(real \<Rightarrow> real \<Rightarrow> real) \<Rightarrow> ndarray \<Rightarrow> ndarray \<Rightarrow> ndarray option" where
  "np_binop f a b =
     (case broadcast_dims (nd_dims a) (nd_dims b) of
        None \<Rightarrow> None
      | Some s \<Rightarrow> Some \<lparr>nd_dims = s, nd_elem = (\<lambda>idx. f (bc_elem a idx) (bc_elem b idx))\<rparr>)"

definition np_add :: "ndarray \<Rightarrow> ndarray \<Rightarrow> ndarray option" where
  "np_add = np_binop (+)"

definition np_sub :: "ndarray \<Rightarrow> ndarray \<Rightarrow> ndarray option" where
  "np_sub = np_binop (-)"

definition np_mul :: "ndarray \<Rightarrow> ndarray \<Rightarrow> ndarray option" where
  "np_mul = np_binop (*)"

definition np_div :: "ndarray \<Rightarrow> ndarray \<Rightarrow> ndarray option" where
  "np_div = np_binop (/)"

definition np_any :: "(real \<Rightarrow> bool) \<Rightarrow> ndarray \<Rightarrow> bool" where
  "np_any p a = list_ex (\<lambda>idx. p (nd_elem a idx)) (indices (nd_dims a))"

definition np_zeros_like :: "ndarray \<Rightarrow> ndarray" where
  "np_zeros_like a = \<lparr>nd_dims = nd_dims a, nd_elem = (\<lambda>idx. 0)\<rparr>"

section \<open>\<open>black_scholes\<close>\<close>

text \<open>
  \<open>S\<close>, \<open>K\<close>, \<open>t\<close> and \<open>sigma\<close> are the arrays that \<open>np.asarray\<close> returns; \<open>r\<close> and \<open>q\<close>
  are Python floats. An operation between a float and an array is \<open>np_map\<close>; an
  operation between two arrays is \<open>np_binop\<close> and raises when the shapes do not
  broadcast, which is \<open>None\<close> below and \<open>BroadcastError\<close> in the result of
  \<open>black_scholes\<close>. Each definition is one line of the source, with Python's
  left-to-right grouping of products and sums.
\<close>

definition exp_times :: "real \<Rightarrow> ndarray \<Rightarrow> ndarray" where
  \<comment> \<open>\<open>np.exp(-q * t)\<close> and \<open>np.exp(-r * t)\<close>, called with \<open>- q\<close> and \<open>- r\<close>\<close>
  "exp_times c t = np_map exp (np_map ((*) c) t)"

definition bs_d1 ::
  "ndarray \<Rightarrow> ndarray \<Rightarrow> real \<Rightarrow> ndarray \<Rightarrow> ndarray \<Rightarrow> real \<Rightarrow> ndarray \<Rightarrow> ndarray option" where
  "bs_d1 S K r t sigma q sqrt_t = do {
     ratio \<leftarrow> np_div S K;
     drift \<leftarrow> np_mul (np_map (\<lambda>v. r - q + 0.5 * v\<^sup>2) sigma) t;
     num \<leftarrow> np_add (np_map ln ratio) drift;
     den \<leftarrow> np_mul sigma sqrt_t;
     np_div num den
   }"

definition bs_d2 :: "ndarray \<Rightarrow> ndarray \<Rightarrow> ndarray \<Rightarrow> ndarray option" where
  "bs_d2 d1 sigma sqrt_t = do {
     vol \<leftarrow> np_mul sigma sqrt_t;
     np_sub d1 vol
   }"

definition bs_theta_decay ::
  "ndarray \<Rightarrow> ndarray \<Rightarrow> ndarray \<Rightarrow> real \<Rightarrow> ndarray \<Rightarrow> ndarray \<Rightarrow> ndarray option" where
  \<comment> \<open>\<open>(-S * sigma * np.exp(-q * t) * norm.pdf(d1)) / (2 * sqrt_t)\<close>\<close>
  "bs_theta_decay S t sigma q sqrt_t d1 = do {
     a \<leftarrow> np_mul (np_map uminus S) sigma;
     b \<leftarrow> np_mul a (exp_times (- q) t);
     c \<leftarrow> np_mul b (np_map norm_pdf d1);
     np_div c (np_map ((*) 2) sqrt_t)
   }"

definition call_price ::
  "ndarray \<Rightarrow> ndarray \<Rightarrow> real \<Rightarrow> ndarray \<Rightarrow> real \<Rightarrow> ndarray \<Rightarrow> ndarray \<Rightarrow> ndarray option" where
  "call_price S K r t q Nd1 Nd2 = do {
     a \<leftarrow> np_mul S (exp_times (- q) t);
     b \<leftarrow> np_mul a Nd1;
     c \<leftarrow> np_mul K (exp_times (- r) t);
     d \<leftarrow> np_mul c Nd2;
     np_sub b d
   }"

definition call_delta :: "ndarray \<Rightarrow> real \<Rightarrow> ndarray \<Rightarrow> ndarray option" where
  "call_delta t q Nd1 = np_mul (exp_times (- q) t) Nd1"

definition call_theta ::
  "ndarray \<Rightarrow> ndarray \<Rightarrow> real \<Rightarrow> ndarray \<Rightarrow> ndarray \<Rightarrow> real \<Rightarrow> ndarray \<Rightarrow> ndarray \<Rightarrow>
   ndarray \<Rightarrow> ndarray \<Rightarrow> ndarray option" where
  "call_theta S K r t sigma q sqrt_t d1 Nd1 Nd2 = do {
     decay \<leftarrow> bs_theta_decay S t sigma q sqrt_t d1;
     a \<leftarrow> np_mul (np_map ((*) r) K) (exp_times (- r) t);
     b \<leftarrow> np_mul a Nd2;
     c \<leftarrow> np_sub decay b;
     d \<leftarrow> np_mul (np_map ((*) q) S) (exp_times (- q) t);
     e \<leftarrow> np_mul d Nd1;
     np_add c e
   }"

definition call_rho :: "ndarray \<Rightarrow> real \<Rightarrow> ndarray \<Rightarrow> ndarray \<Rightarrow> ndarray option" where
  "call_rho K r t Nd2 = do {
     a \<leftarrow> np_mul K t;
     b \<leftarrow> np_mul a (exp_times (- r) t);
     np_mul b Nd2
   }"

definition put_price ::
  "ndarray \<Rightarrow> ndarray \<Rightarrow> real \<Rightarrow> ndarray \<Rightarrow> real \<Rightarrow> ndarray \<Rightarrow> ndarray \<Rightarrow> ndarray option" where
  "put_price S K r t q Nmd1 Nmd2 = do {
     a \<leftarrow> np_mul K (exp_times (- r) t);
     b \<leftarrow> np_mul a Nmd2;
     c \<leftarrow> np_mul S (exp_times (- q) t);
     d \<leftarrow> np_mul c Nmd1;
     np_sub b d
   }"

definition put_delta :: "ndarray \<Rightarrow> real \<Rightarrow> ndarray \<Rightarrow> ndarray option" where
  "put_delta t q Nmd1 = np_mul (exp_times (- q) t) Nmd1"

definition put_theta ::
  "ndarray \<Rightarrow> ndarray \<Rightarrow> real \<Rightarrow> ndarray \<Rightarrow> ndarray \<Rightarrow> real \<Rightarrow> ndarray \<Rightarrow> ndarray \<Rightarrow>
   ndarray \<Rightarrow> ndarray \<Rightarrow> ndarray option" where
  "put_theta S K r t sigma q sqrt_t d1 Nmd1 Nmd2 = do {
     decay \<leftarrow> bs_theta_decay S t sigma q sqrt_t d1;
     a \<leftarrow> np_mul (np_map ((*) r) K) (exp_times (- r) t);
     b \<leftarrow> np_mul a Nmd2;
     c \<leftarrow> np_add decay b;
     d \<leftarrow> np_mul (np_map ((*) q) S) (exp_times (- q) t);
     e \<leftarrow> np_mul d Nmd1;
     np_sub c e
   }"

definition put_rho :: "ndarray \<Rightarrow> real \<Rightarrow> ndarray \<Rightarrow> ndarray \<Rightarrow> ndarray option" where
  "put_rho K r t Nmd2 = do {
     a \<leftarrow> np_mul (np_map uminus K) t;
     b \<leftarrow> np_mul a (exp_times (- r) t);
     np_mul b Nmd2
   }"

definition bs_gamma ::
  "ndarray \<Rightarrow> ndarray \<Rightarrow> ndarray \<Rightarrow> real \<Rightarrow> ndarray \<Rightarrow> ndarray \<Rightarrow> ndarray option" where
  "bs_gamma S t sigma q sqrt_t d1 = do {
     num \<leftarrow> np_mul (exp_times (- q) t) (np_map norm_pdf d1);
     a \<leftarrow> np_mul S sigma;
     den \<leftarrow> np_mul a sqrt_t;
     np_div num den
   }"

definition bs_vega :: "ndarray \<Rightarrow> ndarray \<Rightarrow> real \<Rightarrow> ndarray \<Rightarrow> ndarray \<Rightarrow> ndarray option" where
  "bs_vega S t q sqrt_t d1 = do {
     a \<leftarrow> np_mul S sqrt_t;
     b \<leftarrow> np_mul a (exp_times (- q) t);
     np_mul b (np_map norm_pdf d1)
   }"

type_synonym greeks = "ndarray \<times> ndarray \<times> ndarray \<times> ndarray \<times> ndarray \<times> ndarray"

definition black_scholes ::
  "ndarray \<Rightarrow> ndarray \<Rightarrow> real \<Rightarrow> ndarray \<Rightarrow> ndarray \<Rightarrow> string \<Rightarrow> real \<Rightarrow> error + greeks" where
  "black_scholes S K r t sigma option_Type q =
     (if np_any (\<lambda>v. v \<le> 0) t then
        (case (if option_Type = ''Call'' then map_option (np_map (max 0)) (np_sub S K)
               else map_option (np_map (max 0)) (np_sub K S)) of
           None \<Rightarrow> Inl BroadcastError
         | Some intrinsic_value \<Rightarrow>
             Inr (intrinsic_value, np_zeros_like S, np_zeros_like S, np_zeros_like S,
                  np_zeros_like S, np_zeros_like S))
      else
        (let sqrt_t = np_map sqrt t in
         case do { d1 \<leftarrow> bs_d1 S K r t sigma q sqrt_t;
                   d2 \<leftarrow> bs_d2 d1 sigma sqrt_t;
                   Some (d1, d2) } of
           None \<Rightarrow> Inl BroadcastError
         | Some (d1, d2) \<Rightarrow>
            (let Nd1 = np_map norm_cdf d1;
                 Nd2 = np_map norm_cdf d2;
                 Nmd1 = np_map norm_cdf (np_map uminus d1);
                 Nmd2 = np_map norm_cdf (np_map uminus d2)
             in case (if option_Type = ''Call'' then
                        map_option Inr (do {
                          price \<leftarrow> call_price S K r t q Nd1 Nd2;
                          delta \<leftarrow> call_delta t q Nd1;
                          theta \<leftarrow> call_theta S K r t sigma q sqrt_t d1 Nd1 Nd2;
                          rho \<leftarrow> call_rho K r t Nd2;
                          Some (price, delta, theta, rho) })
                      else if option_Type = ''Put'' then
                        map_option Inr (do {
                          price \<leftarrow> put_price S K r t q Nmd1 Nmd2;
                          delta \<leftarrow> put_delta t q Nmd1;
                          theta \<leftarrow> put_theta S K r t sigma q sqrt_t d1 Nmd1 Nmd2;
                          rho \<leftarrow> put_rho K r t Nmd2;
                          Some (price, delta, theta, rho) })
                      else Some (Inl InvalidOptionType)) of
                  None \<Rightarrow> Inl BroadcastError
                | Some (Inl e) \<Rightarrow> Inl e
                | Some (Inr (price, delta, theta, rho)) \<Rightarrow>
                   (case do { gamma \<leftarrow> bs_gamma S t sigma q sqrt_t d1;
                              vega \<leftarrow> bs_vega S t q sqrt_t d1;
                              Some (gamma, vega) } of
                      None \<Rightarrow> Inl BroadcastError
                    | Some (gamma, vega) \<Rightarrow> Inr (price, delta, gamma, vega, theta, rho)))))"

section \<open>\<open>monte_carlo_european\<close>\<close>

subsection \<open>The global generator of \<open>np.random\<close>\<close>

text \<open>
  numpy's generator is library code. Its role in the notebook is that of a deterministic
  stream: after \<open>np.random.seed(s)\<close> the \<open>k\<close>-th standard normal variate drawn is a fixed
  number \<open>normal s k\<close>. The stream \<open>normal\<close> is a parameter of the model; the state of the
  generator is the seed last set and the number of variates drawn since.
\<close>

record rng =
  rng_seed :: nat
  rng_drawn :: nat

definition np_random_seed :: "nat \<Rightarrow> rng \<Rightarrow> rng" where
  "np_random_seed s g = \<lparr>rng_seed = s, rng_drawn = 0\<rparr>"

definition standard_normal ::
  "(nat \<Rightarrow> nat \<Rightarrow> real) \<Rightarrow> nat \<Rightarrow> nat \<Rightarrow> rng \<Rightarrow> real list list \<times> rng" where
  \<comment> \<open>\<open>np.random.standard_normal((n, m))\<close>: \<open>n\<close> rows of \<open>m\<close> variates, filled row by row\<close>
  "standard_normal normal n m g =
     (map (\<lambda>i. map (\<lambda>j. normal (rng_seed g) (rng_drawn g + i * m + j)) [0..<m]) [0..<n],
      g\<lparr>rng_drawn := rng_drawn g + n * m\<rparr>)"

subsection \<open>Values that may be \<open>nan\<close>\<close>

fun nan_lift2 :: "(real \<Rightarrow> real \<Rightarrow> real) \<Rightarrow> real option \<Rightarrow> real option \<Rightarrow> real option" where
  "nan_lift2 f (Some x) (Some y) = Some (f x y)"
| "nan_lift2 f _ _ = None"

definition np_sqrt :: "real \<Rightarrow> real option" where
  "np_sqrt x = (if x < 0 then None else Some (sqrt x))"

definition nan_sum :: "real option list \<Rightarrow> real option" where
  "nan_sum xs = foldl (nan_lift2 (+)) (Some 0) xs"

definition np_mean :: "real option list \<Rightarrow> real option" where
  "np_mean xs =
     (if xs = [] then None else nan_lift2 (/) (nan_sum xs) (Some (real (length xs))))"

subsection \<open>The matrix of paths\<close>

text \<open>A two-dimensional array is the list of its rows; \<open>S[:, t]\<close> is a column.\<close>

definition get_col :: "'a list list \<Rightarrow> nat \<Rightarrow> 'a list" where
  "get_col A t = map (\<lambda>row. row ! t) A"

definition set_col :: "'a list list \<Rightarrow> nat \<Rightarrow> 'a list \<Rightarrow> 'a list list" where
  "set_col A t col = map2 (\<lambda>row v. row[t := v]) A col"

definition np_zeros :: "nat \<Rightarrow> nat \<Rightarrow> real option list list" where
  "np_zeros n m = replicate n (replicate m (Some 0))"

definition gbm_increment :: "real \<Rightarrow> real \<Rightarrow> real \<Rightarrow> real \<Rightarrow> real option" where
  \<comment> \<open>\<open>(r - 0.5 * sigma**2) * dt + sigma * np.sqrt(dt) * z\<close>\<close>
  "gbm_increment r sigma dt z =
     nan_lift2 (+) (Some ((r - 0.5 * sigma\<^sup>2) * dt))
       (nan_lift2 (*) (nan_lift2 (*) (Some sigma) (np_sqrt dt)) (Some z))"

definition mc_step ::
  "real \<Rightarrow> real \<Rightarrow> real \<Rightarrow> real list list \<Rightarrow> nat \<Rightarrow> real option list list \<Rightarrow> real option list list"
  where
  \<comment> \<open>the loop body \<open>S[:, t] = S[:, t - 1] * np.exp(... * Z[:, t])\<close>\<close>
  "mc_step r sigma dt Z t S =
     set_col S t
       (map2 (nan_lift2 (*)) (get_col S (t - 1))
          (map (\<lambda>z. map_option exp (gbm_increment r sigma dt z)) (get_col Z t)))"

definition mc_paths ::
  "real \<Rightarrow> real \<Rightarrow> real \<Rightarrow> real \<Rightarrow> real list list \<Rightarrow> nat \<Rightarrow> nat \<Rightarrow> real option list list" where
  \<comment> \<open>\<open>S = np.zeros((n, m)); S[:, 0] = S0; for t in range(1, m): ...\<close>\<close>
  "mc_paths S0 r sigma dt Z n m =
     fold (mc_step r sigma dt Z) [1..<m] (set_col (np_zeros n m) 0 (replicate n (Some S0)))"

definition mc_price :: "real \<Rightarrow> real \<Rightarrow> real option list \<Rightarrow> real option" where
  \<comment> \<open>\<open>np.exp(-r * T) * np.mean(payoff)\<close>\<close>
  "mc_price r T payoff = nan_lift2 (*) (Some (exp (- r * T))) (np_mean payoff)"

definition monte_carlo_european ::
  "(nat \<Rightarrow> nat \<Rightarrow> real) \<Rightarrow> rng \<Rightarrow> real \<Rightarrow> real \<Rightarrow> real \<Rightarrow> real \<Rightarrow> real \<Rightarrow> string \<Rightarrow> int \<Rightarrow> int \<Rightarrow>
   (error + real option) \<times> rng" where
  "monte_carlo_european normal g S0 K T r sigma option_type num_simulations num_steps =
     (if num_steps = 0 then (Inl ZeroDivisionError, g)
      else
        let dt = T / real_of_int num_steps;
            g1 = np_random_seed 42 g
        in if num_simulations < 0 \<or> num_steps < 0 then (Inl NegativeDimensions, g1)
           else
             let n = nat num_simulations;
                 m = nat num_steps;
                 (Z, g2) = standard_normal normal n m g1;
                 S = mc_paths S0 r sigma dt Z n m;
                 ST = get_col S (m - 1)
             in if option_type = ''Call'' then
                  (Inr (mc_price r T (map (\<lambda>s. nan_lift2 max (nan_lift2 (-) s (Some K)) (Some 0)) ST)), g2)
                else if option_type = ''Put'' then
                  (Inr (mc_price r T (map (\<lambda>s. nan_lift2 max (nan_lift2 (-) (Some K) s) (Some 0)) ST)), g2)
                else (Inl InvalidOptionType, g2))"

section \<open>Notions of the statements and proofs\<close>

text \<open>
  The shape and the array that an operation between two arrays yields when their shapes
  broadcast.
\<close>

definition broadcast_join :: "nat list \<Rightarrow> nat list \<Rightarrow> nat list" where
  "broadcast_join a b = (case broadcast_dims a b of Some c \<Rightarrow> c | None \<Rightarrow> [])"

definition np_binop_tot :: "(real \<Rightarrow> real \<Rightarrow> real) \<Rightarrow> ndarray \<Rightarrow> ndarray \<Rightarrow> ndarray" where
  "np_binop_tot f a b =
     \<lparr>nd_dims = broadcast_join (nd_dims a) (nd_dims b),
      nd_elem = (\<lambda>idx. f (bc_elem a idx) (bc_elem b idx))\<rparr>"

text \<open>The values of \<open>d1\<close> and \<open>d2\<close> of the source at one index of the result.\<close>

definition d1_formula :: "real \<Rightarrow> real \<Rightarrow> real \<Rightarrow> real \<Rightarrow> real \<Rightarrow> real \<Rightarrow> real" where
  "d1_formula s k r t v q = (ln (s / k) + (r - q + 0.5 * v\<^sup>2) * t) / (v * sqrt t)"

definition bs_d1_at :: "ndarray \<Rightarrow> ndarray \<Rightarrow> real \<Rightarrow> ndarray \<Rightarrow> ndarray \<Rightarrow> real \<Rightarrow> nat list \<Rightarrow> real" where
  "bs_d1_at S K r t sigma q idx =
     d1_formula (bc_elem S idx) (bc_elem K idx) r (bc_elem t idx) (bc_elem sigma idx) q"

definition bs_d2_at :: "ndarray \<Rightarrow> ndarray \<Rightarrow> real \<Rightarrow> ndarray \<Rightarrow> ndarray \<Rightarrow> real \<Rightarrow> nat list \<Rightarrow> real" where
  "bs_d2_at S K r t sigma q idx =
     bs_d1_at S K r t sigma q idx - bc_elem sigma idx * sqrt (bc_elem t idx)"

text \<open>
  The loop body on one row of the matrix, and the value that the loop leaves at step \<open>j\<close>
  of a path whose variates are \<open>z\<close>.
\<close>

definition row_step :: "real \<Rightarrow> real \<Rightarrow> real \<Rightarrow> real list \<Rightarrow> nat \<Rightarrow> real option list \<Rightarrow> real option list" where
  "row_step r sigma dt z t row =
     row[t := nan_lift2 (*) (row ! (t - 1)) (map_option exp (gbm_increment r sigma dt (z ! t)))]"

definition gbm_path :: "real \<Rightarrow> real \<Rightarrow> real \<Rightarrow> real \<Rightarrow> real list \<Rightarrow> nat \<Rightarrow> real option" where
  "gbm_path S0 r sigma dt z j =
     nan_lift2 (*) (Some S0)
       (map_option exp (nan_sum (map (\<lambda>k. gbm_increment r sigma dt (z ! k)) [1..<Suc j])))"

section \<open>Broadcasting\<close>

lemma broadcast_dims_Nil2 [simp]: "broadcast_dims xs [] = Some xs"
  by (cases xs) simp_all

lemma broadcast_dims_commute: "broadcast_dims a b = broadcast_dims b a"
  by (induction a b rule: broadcast_dims.induct) auto

lemma bc_le_refl [simp]: "bc_le D D"
  unfolding bc_le_def by (induction D) auto

lemma broadcast_dims_ub1: "broadcast_dims a b = Some c \<Longrightarrow> bc_le a c"
  unfolding bc_le_def
proof (induction a b arbitrary: c rule: broadcast_dims.induct)
  case (1 ys)
  then show ?case by simp
next
  case (2 x xs)
  then show ?case using bc_le_refl[unfolded bc_le_def] by simp
next
  case (3 x xs y ys)
  then show ?case by (auto split: if_splits)
qed

lemma broadcast_dims_ub2: "broadcast_dims a b = Some c \<Longrightarrow> bc_le b c"
  using broadcast_dims_ub1 [of b a c] by (simp add: broadcast_dims_commute)

lemma broadcast_dims_Cons_le:
  "broadcast_dims (x # xs) (d # D') = Some (d # D') \<longleftrightarrow>
     (x = d \<or> x = 1) \<and> broadcast_dims xs D' = Some D'"
  by (auto split: if_splits)

lemma broadcast_dims_least:
  "bc_le a D \<Longrightarrow> bc_le b D \<Longrightarrow> \<exists>c. broadcast_dims a b = Some c \<and> bc_le c D"
  unfolding bc_le_def
proof (induction a b arbitrary: D rule: broadcast_dims.induct)
  case (1 ys)
  then show ?case by simp
next
  case (2 x xs)
  then show ?case by simp
next
  case (3 x xs y ys)
  then obtain d D' where D: "D = d # D'" by (cases D) auto
  from "3.prems" D have xs: "broadcast_dims xs D' = Some D'" and x: "x = d \<or> x = 1"
    and ys: "broadcast_dims ys D' = Some D'" and y: "y = d \<or> y = 1"
    by (simp_all only: broadcast_dims_Cons_le)
  have "\<exists>z. broadcast_dims xs ys = Some z \<and> broadcast_dims z D' = Some D'"
  proof (cases "x = y \<or> y = 1")
    case True
    then show ?thesis using "3.IH"(1) [OF True xs ys] by simp
  next
    case False
    with x y have x1: "x = 1" by auto
    show ?thesis using "3.IH"(2) [OF False x1 xs ys] by simp
  qed
  then obtain z where z: "broadcast_dims xs ys = Some z" "broadcast_dims z D' = Some D'"
    by blast
  with x y D show ?case by auto
qed

lemma bc_le_antisym: "bc_le a b \<Longrightarrow> bc_le b a \<Longrightarrow> a = b"
  unfolding bc_le_def using broadcast_dims_commute [of a b] by simp

lemma bc_le_Nil [simp]: "bc_le [] D"
  by (simp add: bc_le_def)

lemma bc_le_Nil2 [simp]: "bc_le D [] \<longleftrightarrow> D = []"
  by (cases D) (simp_all add: bc_le_def)

lemma bc_le_Cons:
  "bc_le (x # xs) D \<longleftrightarrow> (\<exists>d D'. D = d # D' \<and> (x = d \<or> x = 1) \<and> bc_le xs D')"
  unfolding bc_le_def by (cases D) (auto split: if_splits)

lemma bc_le_trans: "bc_le a b \<Longrightarrow> bc_le b c \<Longrightarrow> bc_le a c"
proof (induction a arbitrary: b c)
  case Nil
  then show ?case by simp
next
  case (Cons x xs)
  from Cons.prems(1) obtain d D' where b: "b = d # D'" and x: "x = d \<or> x = 1" and xs: "bc_le xs D'"
    by (auto simp: bc_le_Cons)
  from Cons.prems(2) b obtain e E' where c: "c = e # E'" and d: "d = e \<or> d = 1" and D': "bc_le D' E'"
    by (auto simp: bc_le_Cons)
  from Cons.IH [OF xs D'] x d c show ?case by (auto simp: bc_le_Cons)
qed

lemma bc_index_compose: "bc_le a c \<Longrightarrow> bc_index a (bc_index c idx) = bc_index a idx"
proof (induction a arbitrary: c idx)
  case Nil
  then show ?case by simp
next
  case (Cons x xs)
  from Cons.prems obtain d D' where c: "c = d # D'" and x: "x = d \<or> x = 1" and xs: "bc_le xs D'"
    by (auto simp: bc_le_Cons)
  show ?case
  proof (cases idx)
    case Nil
    then show ?thesis by (simp add: c)
  next
    case (Cons i idx')
    with c x Cons.IH [OF xs, of idx'] show ?thesis by auto
  qed
qed

lemma broadcast_join_le:
  assumes "bc_le a D" "bc_le b D"
  shows "broadcast_dims a b = Some (broadcast_join a b)" and "bc_le (broadcast_join a b) D"
  using broadcast_dims_least [OF assms] by (auto simp: broadcast_join_def)

lemma broadcast_join_top:
  "bc_le a D \<Longrightarrow> broadcast_join a D = D" "bc_le a D \<Longrightarrow> broadcast_join D a = D"
  using broadcast_dims_commute [of a D] by (simp_all add: broadcast_join_def bc_le_def)

lemma np_binop_tot:
  "bc_le (nd_dims a) D \<Longrightarrow> bc_le (nd_dims b) D \<Longrightarrow> np_binop f a b = Some (np_binop_tot f a b)"
  by (simp add: np_binop_def np_binop_tot_def broadcast_join_le(1))

lemma np_binop_tot_le:
  "bc_le (nd_dims a) D \<Longrightarrow> bc_le (nd_dims b) D \<Longrightarrow> bc_le (nd_dims (np_binop_tot f a b)) D"
  by (simp add: np_binop_tot_def broadcast_join_le(2))

lemma np_binop_tot_dims:
  "nd_dims a = D \<Longrightarrow> bc_le (nd_dims b) D \<Longrightarrow> nd_dims (np_binop_tot f a b) = D"
  "bc_le (nd_dims a) D \<Longrightarrow> nd_dims b = D \<Longrightarrow> nd_dims (np_binop_tot f a b) = D"
  by (auto simp: np_binop_tot_def broadcast_join_top)

lemma np_binop_tot_elem:
  assumes "bc_le (nd_dims a) D" "bc_le (nd_dims b) D"
  shows "bc_elem (np_binop_tot f a b) idx = f (bc_elem a idx) (bc_elem b idx)"
proof -
  let ?c = "broadcast_join (nd_dims a) (nd_dims b)"
  have c: "broadcast_dims (nd_dims a) (nd_dims b) = Some ?c"
    by (rule broadcast_join_le(1) [OF assms])
  have "bc_le (nd_dims a) ?c" "bc_le (nd_dims b) ?c"
    using broadcast_dims_ub1 [OF c] broadcast_dims_ub2 [OF c] by simp_all
  then show ?thesis
    by (simp add: bc_elem_def np_binop_tot_def bc_index_compose)
qed

lemma np_map_dims [simp]: "nd_dims (np_map f a) = nd_dims a"
  by (simp add: np_map_def)

lemma np_map_elem [simp]: "bc_elem (np_map f a) idx = f (bc_elem a idx)"
  by (simp add: np_map_def bc_elem_def)

lemma exp_times_dims [simp]: "nd_dims (exp_times c t) = nd_dims t"
  by (simp add: exp_times_def)

lemma exp_times_elem [simp]: "bc_elem (exp_times c t) idx = exp (c * bc_elem t idx)"
  by (simp add: exp_times_def)

lemma indices_bc_index: "idx \<in> set (indices ds) \<Longrightarrow> bc_index ds idx = idx"
  by (induction ds arbitrary: idx) auto

lemma bc_elem_own: "idx \<in> set (indices (nd_dims a)) \<Longrightarrow> bc_elem a idx = nd_elem a idx"
  by (simp add: bc_elem_def indices_bc_index)

lemma broadcast_all_ub:
  "broadcast_all ss = Some D \<Longrightarrow> s \<in> set ss \<Longrightarrow> bc_le s D"
proof (induction ss arbitrary: D)
  case Nil
  then show ?case by simp
next
  case (Cons a ss)
  from Cons.prems(1) obtain E where E: "broadcast_all ss = Some E" "broadcast_dims a E = Some D"
    by (auto simp: bind_eq_Some_conv)
  show ?case
  proof (cases "s = a")
    case True
    then show ?thesis using broadcast_dims_ub1 [OF E(2)] by simp
  next
    case False
    with Cons.prems(2) have "s \<in> set ss" by simp
    from Cons.IH [OF E(1) this] broadcast_dims_ub2 [OF E(2)] show ?thesis
      by (rule bc_le_trans)
  qed
qed

lemma broadcast_all_least:
  "broadcast_all ss = Some D \<Longrightarrow> (\<And>s. s \<in> set ss \<Longrightarrow> bc_le s X) \<Longrightarrow> bc_le D X"
proof (induction ss arbitrary: D)
  case Nil
  then show ?case by simp
next
  case (Cons a ss)
  from Cons.prems(1) obtain E where E: "broadcast_all ss = Some E" "broadcast_dims a E = Some D"
    by (auto simp: bind_eq_Some_conv)
  have "bc_le E X" using Cons.IH [OF E(1)] Cons.prems(2) by simp
  moreover have "bc_le a X" using Cons.prems(2) by simp
  ultimately show ?case using broadcast_dims_least [of a X E] E(2) by auto
qed

section \<open>The standard normal distribution is symmetric\<close>

lemma erf_summable: "summable (\<lambda>n. erf_coeff n * x ^ (2 * n + 1))"
proof (rule summable_comparison_test')
  show "summable (\<lambda>n. \<bar>x\<bar> * (inverse (fact n) * (x\<^sup>2) ^ n))"
    by (intro summable_mult summable_exp)
  fix n :: nat
  assume "n \<ge> 0"
  have pw: "x ^ (2 * n + 1) = x * (x\<^sup>2) ^ n"
    by (simp add: power_mult)
  have "norm (erf_coeff n * x ^ (2 * n + 1)) = \<bar>x\<bar> * ((x\<^sup>2) ^ n / (fact n * (2 * real n + 1)))"
    unfolding pw by (simp add: erf_coeff_def abs_mult power_abs)
  also have "\<dots> \<le> \<bar>x\<bar> * (inverse (fact n) * (x\<^sup>2) ^ n)"
  proof -
    have "(x\<^sup>2) ^ n / (fact n * (2 * real n + 1)) \<le> (x\<^sup>2) ^ n / fact n"
      by (intro divide_left_mono) (simp_all add: mult_pos_pos)
    then have "(x\<^sup>2) ^ n / (fact n * (2 * real n + 1)) \<le> inverse (fact n) * (x\<^sup>2) ^ n"
      by (simp add: divide_inverse mult.commute)
    then show ?thesis
      by (rule mult_left_mono) simp
  qed
  finally show "norm (erf_coeff n * x ^ (2 * n + 1)) \<le> \<bar>x\<bar> * (inverse (fact n) * (x\<^sup>2) ^ n)" .
qed

lemma erf_minus: "erf (- x) = - erf x"
proof -
  have "(\<Sum>n. erf_coeff n * (- x) ^ (2 * n + 1)) = (\<Sum>n. - (erf_coeff n * x ^ (2 * n + 1)))"
    by simp
  also have "\<dots> = - (\<Sum>n. erf_coeff n * x ^ (2 * n + 1))"
    by (rule suminf_minus [OF erf_summable])
  finally show ?thesis by (simp add: erf_def)
qed

lemma erf_0: "erf 0 = 0"
  by (simp add: erf_def)

lemma norm_cdf_minus: "norm_cdf (- x) = 1 - norm_cdf x"
  by (simp add: norm_cdf_def erf_minus field_simps)

lemma norm_cdf_0: "norm_cdf 0 = 1 / 2"
  by (simp add: norm_cdf_def erf_0)

section \<open>Properties of \<open>black_scholes\<close>\<close>

subsection \<open>The formula path returns, in the broadcast shape\<close>

lemmas tot_rules = np_binop_tot np_binop_tot_le np_binop_tot_dims np_binop_tot_elem

lemma bs_d1_tot:
  assumes S: "bc_le (nd_dims S) D" and K: "bc_le (nd_dims K) D"
    and t: "bc_le (nd_dims t) D" and v: "bc_le (nd_dims sigma) D"
  shows "\<exists>d1. bs_d1 S K r t sigma q (np_map sqrt t) = Some d1 \<and> bc_le (nd_dims d1) D \<and>
           bc_le (nd_dims S) (nd_dims d1) \<and> bc_le (nd_dims K) (nd_dims d1) \<and>
           bc_le (nd_dims t) (nd_dims d1) \<and> bc_le (nd_dims sigma) (nd_dims d1) \<and>
           (\<forall>idx. bc_elem d1 idx =
              d1_formula (bc_elem S idx) (bc_elem K idx) r (bc_elem t idx) (bc_elem sigma idx) q)"
proof -
  define ratio where "ratio = np_binop_tot (/) S K"
  define drift where "drift = np_binop_tot (*) (np_map (\<lambda>v. r - q + 0.5 * v\<^sup>2) sigma) t"
  define num where "num = np_binop_tot (+) (np_map ln ratio) drift"
  define den where "den = np_binop_tot (*) sigma (np_map sqrt t)"
  define d1 where "d1 = np_binop_tot (/) num den"
  note le = S K t v
  have c1: "broadcast_dims (nd_dims S) (nd_dims K) = Some (nd_dims ratio)"
    using broadcast_join_le(1) [OF S K] by (simp add: ratio_def np_binop_tot_def)
  have c2: "broadcast_dims (nd_dims sigma) (nd_dims t) = Some (nd_dims drift)"
    using broadcast_join_le(1) [OF v t] by (simp add: drift_def np_binop_tot_def)
  have rl: "bc_le (nd_dims ratio) D" and dl: "bc_le (nd_dims drift) D"
    and dn: "bc_le (nd_dims den) D"
    unfolding ratio_def drift_def den_def by (simp_all add: tot_rules [where D = D] le)
  have c3: "broadcast_dims (nd_dims ratio) (nd_dims drift) = Some (nd_dims num)"
    using broadcast_join_le(1) [OF rl dl] by (simp add: num_def np_binop_tot_def)
  have nl: "bc_le (nd_dims num) D"
    unfolding num_def using rl dl by (simp add: tot_rules [where D = D])
  have c4: "broadcast_dims (nd_dims num) (nd_dims den) = Some (nd_dims d1)"
    using broadcast_join_le(1) [OF nl dn] by (simp add: d1_def np_binop_tot_def)
  have d1l: "bc_le (nd_dims d1) D"
    unfolding d1_def using nl dn by (simp add: tot_rules [where D = D])
  have up: "bc_le (nd_dims num) (nd_dims d1)" "bc_le (nd_dims ratio) (nd_dims num)"
    "bc_le (nd_dims drift) (nd_dims num)" "bc_le (nd_dims S) (nd_dims ratio)"
    "bc_le (nd_dims K) (nd_dims ratio)" "bc_le (nd_dims sigma) (nd_dims drift)"
    "bc_le (nd_dims t) (nd_dims drift)"
    using broadcast_dims_ub1 [OF c4] broadcast_dims_ub1 [OF c3] broadcast_dims_ub2 [OF c3]
      broadcast_dims_ub1 [OF c1] broadcast_dims_ub2 [OF c1]
      broadcast_dims_ub1 [OF c2] broadcast_dims_ub2 [OF c2] by simp_all
  have "bs_d1 S K r t sigma q (np_map sqrt t) = Some d1"
    unfolding bs_d1_def np_div_def np_mul_def np_add_def d1_def num_def den_def ratio_def drift_def
    using le by (simp add: np_binop_tot [where D = D] np_binop_tot_le [where D = D])
  moreover have "bc_elem d1 idx =
      d1_formula (bc_elem S idx) (bc_elem K idx) r (bc_elem t idx) (bc_elem sigma idx) q" for idx
    unfolding d1_def num_def den_def ratio_def drift_def d1_formula_def
    using le by (simp add: tot_rules [where D = D])
  moreover have "bc_le (nd_dims S) (nd_dims d1)" "bc_le (nd_dims K) (nd_dims d1)"
    "bc_le (nd_dims t) (nd_dims d1)" "bc_le (nd_dims sigma) (nd_dims d1)"
    using up by (blast intro: bc_le_trans)+
  ultimately show ?thesis using d1l by blast
qed

lemma bs_d2_tot:
  assumes "bc_le (nd_dims t) D" "bc_le (nd_dims sigma) D" "nd_dims d1 = D"
  shows "\<exists>d2. bs_d2 d1 sigma (np_map sqrt t) = Some d2 \<and> nd_dims d2 = D \<and>
           (\<forall>idx. bc_elem d2 idx = bc_elem d1 idx - bc_elem sigma idx * sqrt (bc_elem t idx))"
  using assms unfolding bs_d2_def np_mul_def np_sub_def
  by (simp add: tot_rules [where D = D])

lemma call_price_tot:
  assumes "bc_le (nd_dims S) D" "bc_le (nd_dims K) D" "bc_le (nd_dims t) D"
    "nd_dims Nd1 = D" "nd_dims Nd2 = D"
  shows "\<exists>p. call_price S K r t q Nd1 Nd2 = Some p \<and> nd_dims p = D \<and>
           (\<forall>idx. bc_elem p idx =
              bc_elem S idx * exp (- q * bc_elem t idx) * bc_elem Nd1 idx -
              bc_elem K idx * exp (- r * bc_elem t idx) * bc_elem Nd2 idx)"
  using assms unfolding call_price_def np_mul_def np_sub_def
  by (simp add: tot_rules [where D = D])

lemma put_price_tot:
  assumes "bc_le (nd_dims S) D" "bc_le (nd_dims K) D" "bc_le (nd_dims t) D"
    "nd_dims Nmd1 = D" "nd_dims Nmd2 = D"
  shows "\<exists>p. put_price S K r t q Nmd1 Nmd2 = Some p \<and> nd_dims p = D \<and>
           (\<forall>idx. bc_elem p idx =
              bc_elem K idx * exp (- r * bc_elem t idx) * bc_elem Nmd2 idx -
              bc_elem S idx * exp (- q * bc_elem t idx) * bc_elem Nmd1 idx)"
  using assms unfolding put_price_def np_mul_def np_sub_def
  by (simp add: tot_rules [where D = D])

lemma call_delta_tot:
  assumes "bc_le (nd_dims t) D" "nd_dims Nd1 = D"
  shows "\<exists>p. call_delta t q Nd1 = Some p \<and> nd_dims p = D \<and>
           (\<forall>idx. bc_elem p idx = exp (- q * bc_elem t idx) * bc_elem Nd1 idx)"
  using assms unfolding call_delta_def np_mul_def
  by (simp add: tot_rules [where D = D])

lemma put_delta_tot:
  assumes "bc_le (nd_dims t) D" "nd_dims Nmd1 = D"
  shows "\<exists>p. put_delta t q Nmd1 = Some p \<and> nd_dims p = D \<and>
           (\<forall>idx. bc_elem p idx = exp (- q * bc_elem t idx) * bc_elem Nmd1 idx)"
  using assms unfolding put_delta_def np_mul_def
  by (simp add: tot_rules [where D = D])

lemma bs_theta_decay_tot:
  assumes "bc_le (nd_dims S) D" "bc_le (nd_dims t) D" "bc_le (nd_dims sigma) D" "nd_dims d1 = D"
  shows "\<exists>p. bs_theta_decay S t sigma q (np_map sqrt t) d1 = Some p \<and> nd_dims p = D"
  using assms unfolding bs_theta_decay_def np_mul_def np_div_def
  by (simp add: tot_rules [where D = D])

lemma call_theta_tot:
  assumes "bc_le (nd_dims S) D" "bc_le (nd_dims K) D" "bc_le (nd_dims t) D"
    "bc_le (nd_dims sigma) D" "nd_dims d1 = D" "nd_dims Nd1 = D" "nd_dims Nd2 = D"
  shows "\<exists>p. call_theta S K r t sigma q (np_map sqrt t) d1 Nd1 Nd2 = Some p \<and> nd_dims p = D"
proof -
  from bs_theta_decay_tot [OF assms(1,3,4,5), of q] obtain dc
    where "bs_theta_decay S t sigma q (np_map sqrt t) d1 = Some dc" "nd_dims dc = D" by blast
  with assms show ?thesis unfolding call_theta_def np_mul_def np_sub_def np_add_def
    by (simp add: tot_rules [where D = D])
qed

lemma put_theta_tot:
  assumes "bc_le (nd_dims S) D" "bc_le (nd_dims K) D" "bc_le (nd_dims t) D"
    "bc_le (nd_dims sigma) D" "nd_dims d1 = D" "nd_dims Nmd1 = D" "nd_dims Nmd2 = D"
  shows "\<exists>p. put_theta S K r t sigma q (np_map sqrt t) d1 Nmd1 Nmd2 = Some p \<and> nd_dims p = D"
proof -
  from bs_theta_decay_tot [OF assms(1,3,4,5), of q] obtain dc
    where "bs_theta_decay S t sigma q (np_map sqrt t) d1 = Some dc" "nd_dims dc = D" by blast
  with assms show ?thesis unfolding put_theta_def np_mul_def np_sub_def np_add_def
    by (simp add: tot_rules [where D = D])
qed

lemma call_rho_tot:
  assumes "bc_le (nd_dims K) D" "bc_le (nd_dims t) D" "nd_dims Nd2 = D"
  shows "\<exists>p. call_rho K r t Nd2 = Some p \<and> nd_dims p = D"
  using assms unfolding call_rho_def np_mul_def
  by (simp add: tot_rules [where D = D])

lemma put_rho_tot:
  assumes "bc_le (nd_dims K) D" "bc_le (nd_dims t) D" "nd_dims Nmd2 = D"
  shows "\<exists>p. put_rho K r t Nmd2 = Some p \<and> nd_dims p = D"
  using assms unfolding put_rho_def np_mul_def
  by (simp add: tot_rules [where D = D])

lemma bs_gamma_tot:
  assumes "bc_le (nd_dims S) D" "bc_le (nd_dims t) D" "bc_le (nd_dims sigma) D" "nd_dims d1 = D"
  shows "\<exists>p. bs_gamma S t sigma q (np_map sqrt t) d1 = Some p \<and> nd_dims p = D"
  using assms unfolding bs_gamma_def np_mul_def np_div_def
  by (simp add: tot_rules [where D = D])

lemma bs_vega_tot:
  assumes "bc_le (nd_dims S) D" "bc_le (nd_dims t) D" "nd_dims d1 = D"
  shows "\<exists>p. bs_vega S t q (np_map sqrt t) d1 = Some p \<and> nd_dims p = D"
  using assms unfolding bs_vega_def np_mul_def
  by (simp add: tot_rules [where D = D])

lemma live_setup:
  assumes bc: "broadcast_all [nd_dims S, nd_dims K, nd_dims t, nd_dims sigma] = Some D"
  shows "\<exists>d1 d2. bs_d1 S K r t sigma q (np_map sqrt t) = Some d1 \<and>
           bs_d2 d1 sigma (np_map sqrt t) = Some d2 \<and> nd_dims d1 = D \<and> nd_dims d2 = D \<and>
           (\<forall>idx. bc_elem d1 idx =
              d1_formula (bc_elem S idx) (bc_elem K idx) r (bc_elem t idx) (bc_elem sigma idx) q) \<and>
           (\<forall>idx. bc_elem d2 idx = bc_elem d1 idx - bc_elem sigma idx * sqrt (bc_elem t idx))"
proof -
  have le: "bc_le (nd_dims S) D" "bc_le (nd_dims K) D" "bc_le (nd_dims t) D"
    "bc_le (nd_dims sigma) D"
    using broadcast_all_ub [OF bc] by simp_all
  from bs_d1_tot [OF le, of r q] obtain d1 where d1:
    "bs_d1 S K r t sigma q (np_map sqrt t) = Some d1" "bc_le (nd_dims d1) D"
    "bc_le (nd_dims S) (nd_dims d1)" "bc_le (nd_dims K) (nd_dims d1)"
    "bc_le (nd_dims t) (nd_dims d1)" "bc_le (nd_dims sigma) (nd_dims d1)"
    "\<forall>idx. bc_elem d1 idx =
       d1_formula (bc_elem S idx) (bc_elem K idx) r (bc_elem t idx) (bc_elem sigma idx) q"
    by blast
  have "bc_le D (nd_dims d1)"
    using d1(3-6) by (intro broadcast_all_least [OF bc]) auto
  with d1(2) have D: "nd_dims d1 = D" by (rule bc_le_antisym)
  from bs_d2_tot [OF le(3,4) D] d1(1,7) D show ?thesis by blast
qed

lemma black_scholes_call_live:
  assumes live: "\<not> np_any (\<lambda>v. v \<le> 0) t"
    and bc: "broadcast_all [nd_dims S, nd_dims K, nd_dims t, nd_dims sigma] = Some D"
  shows "\<exists>price delta gamma vega theta rho.
           black_scholes S K r t sigma ''Call'' q = Inr (price, delta, gamma, vega, theta, rho) \<and>
           nd_dims price = D \<and> nd_dims delta = D \<and> nd_dims gamma = D \<and>
           nd_dims vega = D \<and> nd_dims theta = D \<and> nd_dims rho = D \<and>
           (\<forall>idx. bc_elem price idx =
              bc_elem S idx * exp (- q * bc_elem t idx) * norm_cdf (bs_d1_at S K r t sigma q idx) -
              bc_elem K idx * exp (- r * bc_elem t idx) * norm_cdf (bs_d2_at S K r t sigma q idx)) \<and>
           (\<forall>idx. bc_elem delta idx =
              exp (- q * bc_elem t idx) * norm_cdf (bs_d1_at S K r t sigma q idx))"
proof -
  have le: "bc_le (nd_dims S) D" "bc_le (nd_dims K) D" "bc_le (nd_dims t) D"
    "bc_le (nd_dims sigma) D"
    using broadcast_all_ub [OF bc] by simp_all
  from live_setup [OF bc, of r q] obtain d1 d2 where d:
    "bs_d1 S K r t sigma q (np_map sqrt t) = Some d1"
    "bs_d2 d1 sigma (np_map sqrt t) = Some d2" "nd_dims d1 = D" "nd_dims d2 = D"
    "\<forall>idx. bc_elem d1 idx = bs_d1_at S K r t sigma q idx"
    "\<forall>idx. bc_elem d2 idx = bs_d2_at S K r t sigma q idx"
    unfolding bs_d1_at_def bs_d2_at_def by force
  let ?Nd1 = "np_map norm_cdf d1" and ?Nd2 = "np_map norm_cdf d2"
  have N: "nd_dims ?Nd1 = D" "nd_dims ?Nd2 = D" using d(3,4) by simp_all
  from call_price_tot [OF le(1,2,3) N, of r q] obtain price where price:
    "call_price S K r t q ?Nd1 ?Nd2 = Some price" "nd_dims price = D"
    "\<forall>idx. bc_elem price idx =
              bc_elem S idx * exp (- q * bc_elem t idx) * bc_elem ?Nd1 idx -
              bc_elem K idx * exp (- r * bc_elem t idx) * bc_elem ?Nd2 idx" by blast
  from call_delta_tot [OF le(3) N(1), of q] obtain delta where delta:
    "call_delta t q ?Nd1 = Some delta" "nd_dims delta = D"
    "\<forall>idx. bc_elem delta idx = exp (- q * bc_elem t idx) * bc_elem ?Nd1 idx" by blast
  from call_theta_tot [OF le d(3) N, of r q] obtain theta where theta:
    "call_theta S K r t sigma q (np_map sqrt t) d1 ?Nd1 ?Nd2 = Some theta" "nd_dims theta = D"
    by blast
  from call_rho_tot [OF le(2,3) N(2), of r] obtain rho where rho:
    "call_rho K r t ?Nd2 = Some rho" "nd_dims rho = D" by blast
  from bs_gamma_tot [OF le(1,3,4) d(3), of q] obtain gamma where gamma:
    "bs_gamma S t sigma q (np_map sqrt t) d1 = Some gamma" "nd_dims gamma = D" by blast
  from bs_vega_tot [OF le(1,3) d(3), of q] obtain vega where vega:
    "bs_vega S t q (np_map sqrt t) d1 = Some vega" "nd_dims vega = D" by blast
  have "black_scholes S K r t sigma ''Call'' q = Inr (price, delta, gamma, vega, theta, rho)"
    using live d(1,2) price(1) delta(1) theta(1) rho(1) gamma(1) vega(1)
    by (simp add: black_scholes_def)
  moreover have "\<forall>idx. bc_elem price idx =
              bc_elem S idx * exp (- q * bc_elem t idx) * norm_cdf (bs_d1_at S K r t sigma q idx) -
              bc_elem K idx * exp (- r * bc_elem t idx) * norm_cdf (bs_d2_at S K r t sigma q idx)"
    using price(3) d(5,6) by simp
  moreover have "\<forall>idx. bc_elem delta idx =
              exp (- q * bc_elem t idx) * norm_cdf (bs_d1_at S K r t sigma q idx)"
    using delta(3) d(5) by simp
  ultimately show ?thesis
    using price(2) delta(2) theta(2) rho(2) gamma(2) vega(2) by blast
qed

lemma black_scholes_put_live:
  assumes live: "\<not> np_any (\<lambda>v. v \<le> 0) t"
    and bc: "broadcast_all [nd_dims S, nd_dims K, nd_dims t, nd_dims sigma] = Some D"
  shows "\<exists>price delta gamma vega theta rho.
           black_scholes S K r t sigma ''Put'' q = Inr (price, delta, gamma, vega, theta, rho) \<and>
           nd_dims price = D \<and> nd_dims delta = D \<and> nd_dims gamma = D \<and>
           nd_dims vega = D \<and> nd_dims theta = D \<and> nd_dims rho = D \<and>
           (\<forall>idx. bc_elem price idx =
              bc_elem K idx * exp (- r * bc_elem t idx) * norm_cdf (- bs_d2_at S K r t sigma q idx) -
              bc_elem S idx * exp (- q * bc_elem t idx) * norm_cdf (- bs_d1_at S K r t sigma q idx)) \<and>
           (\<forall>idx. bc_elem delta idx =
              exp (- q * bc_elem t idx) * norm_cdf (- bs_d1_at S K r t sigma q idx))"
proof -
  have le: "bc_le (nd_dims S) D" "bc_le (nd_dims K) D" "bc_le (nd_dims t) D"
    "bc_le (nd_dims sigma) D"
    using broadcast_all_ub [OF bc] by simp_all
  from live_setup [OF bc, of r q] obtain d1 d2 where d:
    "bs_d1 S K r t sigma q (np_map sqrt t) = Some d1"
    "bs_d2 d1 sigma (np_map sqrt t) = Some d2" "nd_dims d1 = D" "nd_dims d2 = D"
    "\<forall>idx. bc_elem d1 idx = bs_d1_at S K r t sigma q idx"
    "\<forall>idx. bc_elem d2 idx = bs_d2_at S K r t sigma q idx"
    unfolding bs_d1_at_def bs_d2_at_def by force
  let ?Nd1 = "np_map norm_cdf (np_map uminus d1)" and ?Nd2 = "np_map norm_cdf (np_map uminus d2)"
  have N: "nd_dims ?Nd1 = D" "nd_dims ?Nd2 = D" using d(3,4) by simp_all
  from put_price_tot [OF le(1,2,3) N, of r q] obtain price where price:
    "put_price S K r t q ?Nd1 ?Nd2 = Some price" "nd_dims price = D"
    "\<forall>idx. bc_elem price idx =
              bc_elem K idx * exp (- r * bc_elem t idx) * bc_elem ?Nd2 idx -
              bc_elem S idx * exp (- q * bc_elem t idx) * bc_elem ?Nd1 idx" by blast
  from put_delta_tot [OF le(3) N(1), of q] obtain delta where delta:
    "put_delta t q ?Nd1 = Some delta" "nd_dims delta = D"
    "\<forall>idx. bc_elem delta idx = exp (- q * bc_elem t idx) * bc_elem ?Nd1 idx" by blast
  from put_theta_tot [OF le d(3) N, of r q] obtain theta where theta:
    "put_theta S K r t sigma q (np_map sqrt t) d1 ?Nd1 ?Nd2 = Some theta" "nd_dims theta = D"
    by blast
  from put_rho_tot [OF le(2,3) N(2), of r] obtain rho where rho:
    "put_rho K r t ?Nd2 = Some rho" "nd_dims rho = D" by blast
  from bs_gamma_tot [OF le(1,3,4) d(3), of q] obtain gamma where gamma:
    "bs_gamma S t sigma q (np_map sqrt t) d1 = Some gamma" "nd_dims gamma = D" by blast
  from bs_vega_tot [OF le(1,3) d(3), of q] obtain vega where vega:
    "bs_vega S t q (np_map sqrt t) d1 = Some vega" "nd_dims vega = D" by blast
  have "black_scholes S K r t sigma ''Put'' q = Inr (price, delta, gamma, vega, theta, rho)"
    using live d(1,2) price(1) delta(1) theta(1) rho(1) gamma(1) vega(1)
    by (simp add: black_scholes_def)
  moreover have "\<forall>idx. bc_elem price idx =
              bc_elem K idx * exp (- r * bc_elem t idx) * norm_cdf (- bs_d2_at S K r t sigma q idx) -
              bc_elem S idx * exp (- q * bc_elem t idx) * norm_cdf (- bs_d1_at S K r t sigma q idx)"
    using price(3) d(5,6) by simp
  moreover have "\<forall>idx. bc_elem delta idx =
              exp (- q * bc_elem t idx) * norm_cdf (- bs_d1_at S K r t sigma q idx)"
    using delta(3) d(5) by simp
  ultimately show ?thesis
    using price(2) delta(2) theta(2) rho(2) gamma(2) vega(2) by blast
qed

subsection \<open>Expiry and the option type\<close>

lemma np_any_all: "np_any p a \<longleftrightarrow> \<not> (\<forall>idx\<in>set (indices (nd_dims a)). \<not> p (nd_elem a idx))"
  by (simp add: np_any_def list_ex_iff)

lemma intrinsic_tot:
  assumes "broadcast_dims (nd_dims a) (nd_dims b) = Some D"
  shows "map_option (np_map (max 0)) (np_sub a b) =
           Some \<lparr>nd_dims = D, nd_elem = (\<lambda>idx. max 0 (bc_elem a idx - bc_elem b idx))\<rparr>"
  using assms by (simp add: np_sub_def np_binop_def np_map_def)

text \<open>
  C1. When some element of \<open>t\<close> is at most 0 (and the shapes of \<open>S\<close> and \<open>K\<close> broadcast,
  to \<open>D\<close>), the call returns for the whole batch the intrinsic value, \<open>max 0 (S - K)\<close>
  element by element for a Call and \<open>max 0 (K - S)\<close> for a Put, in the shape \<open>D\<close>, and
  five arrays of zeros for the Greeks. The result mentions neither \<open>r\<close>, \<open>sigma\<close> nor \<open>q\<close>:
  no formula of the model is evaluated.
\<close>

theorem bs_expired_intrinsic_value:
  assumes "np_any (\<lambda>v. v \<le> 0) t"
    and "broadcast_dims (nd_dims S) (nd_dims K) = Some D"
  shows "black_scholes S K r t sigma ''Call'' q =
           Inr (\<lparr>nd_dims = D, nd_elem = (\<lambda>idx. max 0 (bc_elem S idx - bc_elem K idx))\<rparr>,
                np_zeros_like S, np_zeros_like S, np_zeros_like S, np_zeros_like S,
                np_zeros_like S) \<and>
         black_scholes S K r t sigma ''Put'' q =
           Inr (\<lparr>nd_dims = D, nd_elem = (\<lambda>idx. max 0 (bc_elem K idx - bc_elem S idx))\<rparr>,
                np_zeros_like S, np_zeros_like S, np_zeros_like S, np_zeros_like S,
                np_zeros_like S) \<and>
         (\<forall>idx. nd_elem (np_zeros_like S) idx = 0)"
proof -
  from assms(2) have "broadcast_dims (nd_dims K) (nd_dims S) = Some D"
    by (simp add: broadcast_dims_commute)
  with assms show ?thesis
    by (simp add: black_scholes_def intrinsic_tot np_zeros_like_def)
qed

theorem bs_expired_intrinsic_value_witness:
  "np_any (\<lambda>v. v \<le> 0) (np_array1 [1, 0]) \<and>
   broadcast_dims (nd_dims (np_array1 [100, 120])) (nd_dims (np_scalar 110)) = Some [2] \<and>
   nd_elem (fst (projr (black_scholes (np_array1 [100, 120]) (np_scalar 110) 0.05
       (np_array1 [1, 0]) (np_scalar 0.2) ''Call'' 0))) [1] = 10 \<and>
   nd_elem (fst (projr (black_scholes (np_array1 [100, 120]) (np_scalar 110) 0.05
       (np_array1 [1, 0]) (np_scalar 0.2) ''Put'' 0))) [0] = 10"
proof -
  have h1: "np_any (\<lambda>v. v \<le> 0) (np_array1 [1, 0])"
    by (simp add: np_any_def np_array1_def)
  have h2: "broadcast_dims (nd_dims (np_array1 [100, 120])) (nd_dims (np_scalar 110)) = Some [2]"
    by (simp add: np_array1_def np_scalar_def)
  show ?thesis
    using h1 h2 bs_expired_intrinsic_value [OF h1 h2, of "0.05" "np_scalar 0.2" 0]
    by (simp add: bc_elem_def np_array1_def np_scalar_def)
qed

text \<open>
  C2, on the code: with the option type \<open>call\<close> and \<open>t = 0\<close> the call raises nothing. It
  returns the intrinsic value of a Put, \<open>max 0 (110 - 100) = 10\<close>, and zero Greeks. On
  the formula path the same option type raises (\<open>bs_invalid_type_live\<close> below).
\<close>

theorem bs_invalid_type_expired:
  "black_scholes (np_scalar 100) (np_scalar 110) 0.05 (np_scalar 0) (np_scalar 0.2) ''call'' 0 =
     Inr (np_scalar 10, np_scalar 0, np_scalar 0, np_scalar 0, np_scalar 0, np_scalar 0)"
  by (simp add: black_scholes_def np_any_def np_scalar_def np_sub_def np_binop_def np_map_def
      np_zeros_like_def bc_elem_def)

lemma bs_invalid_type_live:
  assumes "\<not> np_any (\<lambda>v. v \<le> 0) t"
    and "broadcast_all [nd_dims S, nd_dims K, nd_dims t, nd_dims sigma] = Some D"
    and "option_Type \<noteq> ''Call''" "option_Type \<noteq> ''Put''"
  shows "black_scholes S K r t sigma option_Type q = Inl InvalidOptionType"
proof -
  from live_setup [OF assms(2), of r q] obtain d1 d2 where
    "bs_d1 S K r t sigma q (np_map sqrt t) = Some d1" "bs_d2 d1 sigma (np_map sqrt t) = Some d2"
    by blast
  with assms(1,3,4) show ?thesis by (simp add: black_scholes_def)
qed

subsection \<open>Parity, shapes and deltas\<close>

text \<open>
  C5. For shared inputs whose shapes broadcast to \<open>D\<close>, with every element of \<open>t\<close> and of
  \<open>sigma\<close> positive, both calls return, and at every index of the result the Call price
  minus the Put price is \<open>S * exp (- q t) - K * exp (- r t)\<close>, in real arithmetic.
\<close>

theorem bs_put_call_parity:
  assumes t: "\<forall>idx\<in>set (indices (nd_dims t)). 0 < nd_elem t idx"
    and v: "\<forall>idx\<in>set (indices (nd_dims sigma)). 0 < nd_elem sigma idx"
    and bc: "broadcast_all [nd_dims S, nd_dims K, nd_dims t, nd_dims sigma] = Some D"
  shows "\<exists>pc dc gc vc thc rhc pp dp gp vp thp rhp.
           black_scholes S K r t sigma ''Call'' q = Inr (pc, dc, gc, vc, thc, rhc) \<and>
           black_scholes S K r t sigma ''Put'' q = Inr (pp, dp, gp, vp, thp, rhp) \<and>
           nd_dims pc = D \<and> nd_dims pp = D \<and>
           (\<forall>idx\<in>set (indices D). nd_elem pc idx - nd_elem pp idx =
              bc_elem S idx * exp (- q * bc_elem t idx) -
              bc_elem K idx * exp (- r * bc_elem t idx))"
proof -
  from t have live: "\<not> np_any (\<lambda>v. v \<le> 0) t"
    by (auto simp: np_any_all not_le)
  from black_scholes_call_live [OF live bc, of r q] obtain pc dc gc vc thc rhc where
    c: "black_scholes S K r t sigma ''Call'' q = Inr (pc, dc, gc, vc, thc, rhc)"
      "nd_dims pc = D"
      "\<forall>idx. bc_elem pc idx =
         bc_elem S idx * exp (- q * bc_elem t idx) * norm_cdf (bs_d1_at S K r t sigma q idx) -
         bc_elem K idx * exp (- r * bc_elem t idx) * norm_cdf (bs_d2_at S K r t sigma q idx)"
    by blast
  from black_scholes_put_live [OF live bc, of r q] obtain pp dp gp vp thp rhp where
    p: "black_scholes S K r t sigma ''Put'' q = Inr (pp, dp, gp, vp, thp, rhp)"
      "nd_dims pp = D"
      "\<forall>idx. bc_elem pp idx =
         bc_elem K idx * exp (- r * bc_elem t idx) * norm_cdf (- bs_d2_at S K r t sigma q idx) -
         bc_elem S idx * exp (- q * bc_elem t idx) * norm_cdf (- bs_d1_at S K r t sigma q idx)"
    by blast
  have "nd_elem pc idx - nd_elem pp idx =
          bc_elem S idx * exp (- q * bc_elem t idx) - bc_elem K idx * exp (- r * bc_elem t idx)"
    if "idx \<in> set (indices D)" for idx
  proof -
    have "nd_elem pc idx = bc_elem pc idx" "nd_elem pp idx = bc_elem pp idx"
      using that c(2) p(2) by (simp_all add: bc_elem_own)
    then show ?thesis
      using c(3) p(3) by (simp add: norm_cdf_minus algebra_simps)
  qed
  with c(1,2) p(1,2) show ?thesis by blast
qed

theorem bs_put_call_parity_witness:
  "list_all (\<lambda>idx. 0 < nd_elem (np_scalar 1) idx) (indices (nd_dims (np_scalar 1))) \<and>
   list_all (\<lambda>idx. 0 < nd_elem (np_scalar 0.2) idx) (indices (nd_dims (np_scalar 0.2))) \<and>
   broadcast_all [nd_dims (np_array1 [100, 105, 110]), nd_dims (np_scalar 110),
                  nd_dims (np_scalar 1), nd_dims (np_scalar 0.2)] = Some [3] \<and>
   (\<exists>pc dc gc vc thc rhc pp dp gp vp thp rhp.
      black_scholes (np_array1 [100, 105, 110]) (np_scalar 110) 0.05 (np_scalar 1)
        (np_scalar 0.2) ''Call'' 0.02 = Inr (pc, dc, gc, vc, thc, rhc) \<and>
      black_scholes (np_array1 [100, 105, 110]) (np_scalar 110) 0.05 (np_scalar 1)
        (np_scalar 0.2) ''Put'' 0.02 = Inr (pp, dp, gp, vp, thp, rhp) \<and>
      nd_elem pc [1] - nd_elem pp [1] = 105 * exp (- 0.02) - 110 * exp (- 0.05))"
proof -
  have h1: "\<forall>idx\<in>set (indices (nd_dims (np_scalar 1))). 0 < nd_elem (np_scalar 1) idx"
    and h2: "\<forall>idx\<in>set (indices (nd_dims (np_scalar 0.2))). 0 < nd_elem (np_scalar 0.2) idx"
    by (simp_all add: np_scalar_def)
  have h3: "broadcast_all [nd_dims (np_array1 [100, 105, 110]), nd_dims (np_scalar 110),
                  nd_dims (np_scalar 1), nd_dims (np_scalar 0.2)] = Some [3]"
    by (simp add: np_scalar_def np_array1_def)
  have i: "[1] \<in> set (indices [3])"
    by (simp add: upt_rec)
  from bs_put_call_parity [OF h1 h2 h3, of "0.05" "0.02"] i
  show ?thesis
    using h1 h2 h3 by (fastforce simp: bc_elem_def np_scalar_def np_array1_def list_all_iff)
qed

text \<open>
  C7, as the code has it. When every element of \<open>t\<close> is positive, the four shapes
  broadcast to \<open>D\<close> and the option type is Call or Put, each of the six returned arrays
  has the shape \<open>D\<close>. When some element of \<open>t'\<close> is at most 0 and the shapes of \<open>S\<close> and
  \<open>K\<close> broadcast to \<open>E\<close>, the price has the shape \<open>E\<close> and each of the five Greeks has
  the shape of \<open>S\<close>, whatever the shapes of \<open>t'\<close> and \<open>sigma\<close>.
\<close>

theorem bs_result_shapes:
  "(\<not> np_any (\<lambda>v. v \<le> 0) t \<and>
    broadcast_all [nd_dims S, nd_dims K, nd_dims t, nd_dims sigma] = Some D \<and>
    (option_Type = ''Call'' \<or> option_Type = ''Put'') \<longrightarrow>
      (\<exists>price delta gamma vega theta rho.
         black_scholes S K r t sigma option_Type q = Inr (price, delta, gamma, vega, theta, rho) \<and>
         nd_dims price = D \<and> nd_dims delta = D \<and> nd_dims gamma = D \<and>
         nd_dims vega = D \<and> nd_dims theta = D \<and> nd_dims rho = D)) \<and>
   (np_any (\<lambda>v. v \<le> 0) t' \<and> broadcast_dims (nd_dims S) (nd_dims K) = Some E \<longrightarrow>
      (\<exists>price zeros.
         black_scholes S K r t' sigma option_Type q =
           Inr (price, zeros, zeros, zeros, zeros, zeros) \<and>
         nd_dims price = E \<and> nd_dims zeros = nd_dims S))"
proof (intro conjI impI)
  assume a: "\<not> np_any (\<lambda>v. v \<le> 0) t \<and>
    broadcast_all [nd_dims S, nd_dims K, nd_dims t, nd_dims sigma] = Some D \<and>
    (option_Type = ''Call'' \<or> option_Type = ''Put'')"
  then have live: "\<not> np_any (\<lambda>v. v \<le> 0) t"
    and bc: "broadcast_all [nd_dims S, nd_dims K, nd_dims t, nd_dims sigma] = Some D"
    and ty: "option_Type = ''Call'' \<or> option_Type = ''Put''" by simp_all
  from ty show "\<exists>price delta gamma vega theta rho.
         black_scholes S K r t sigma option_Type q = Inr (price, delta, gamma, vega, theta, rho) \<and>
         nd_dims price = D \<and> nd_dims delta = D \<and> nd_dims gamma = D \<and>
         nd_dims vega = D \<and> nd_dims theta = D \<and> nd_dims rho = D"
  proof
    assume "option_Type = ''Call''"
    with black_scholes_call_live [OF live bc, of r q] show ?thesis by blast
  next
    assume "option_Type = ''Put''"
    with black_scholes_put_live [OF live bc, of r q] show ?thesis by blast
  qed
next
  assume a: "np_any (\<lambda>v. v \<le> 0) t' \<and> broadcast_dims (nd_dims S) (nd_dims K) = Some E"
  then have "broadcast_dims (nd_dims K) (nd_dims S) = Some E"
    by (simp add: broadcast_dims_commute)
  with a show "\<exists>price zeros.
         black_scholes S K r t' sigma option_Type q =
           Inr (price, zeros, zeros, zeros, zeros, zeros) \<and>
         nd_dims price = E \<and> nd_dims zeros = nd_dims S"
    by (simp add: black_scholes_def intrinsic_tot np_zeros_like_def)
qed

theorem bs_result_shapes_witness:
  "\<not> np_any (\<lambda>v. v \<le> 0) (np_scalar 1) \<and>
   broadcast_all [nd_dims (np_array1 [100, 105, 110]), nd_dims (np_scalar 110),
                  nd_dims (np_scalar 1), nd_dims (np_scalar 0.2)] = Some [3] \<and>
   np_any (\<lambda>v. v \<le> 0) (np_scalar 0) \<and>
   broadcast_dims (nd_dims (np_array1 [100, 105, 110])) (nd_dims (np_scalar 110)) = Some [3] \<and>
   (\<exists>price delta gamma vega theta rho.
      black_scholes (np_array1 [100, 105, 110]) (np_scalar 110) 0.05 (np_scalar 1)
        (np_scalar 0.2) ''Put'' 0.02 = Inr (price, delta, gamma, vega, theta, rho) \<and>
      nd_dims price = [3] \<and> nd_dims delta = [3] \<and> nd_dims gamma = [3] \<and>
      nd_dims vega = [3] \<and> nd_dims theta = [3] \<and> nd_dims rho = [3]) \<and>
   (\<exists>price zeros.
      black_scholes (np_array1 [100, 105, 110]) (np_scalar 110) 0.05 (np_scalar 0)
        (np_scalar 0.2) ''Put'' 0.02 = Inr (price, zeros, zeros, zeros, zeros, zeros) \<and>
      nd_dims price = [3] \<and> nd_dims zeros = [3])"
proof -
  have h1: "\<not> np_any (\<lambda>v. v \<le> 0) (np_scalar 1)" and h3: "np_any (\<lambda>v. v \<le> 0) (np_scalar 0)"
    by (simp_all add: np_any_def np_scalar_def)
  have h2: "broadcast_all [nd_dims (np_array1 [100, 105, 110]), nd_dims (np_scalar 110),
                  nd_dims (np_scalar 1), nd_dims (np_scalar 0.2)] = Some [3]"
    and h4: "broadcast_dims (nd_dims (np_array1 [100, 105, 110])) (nd_dims (np_scalar 110)) = Some [3]"
    and h5: "nd_dims (np_array1 [100, 105, 110]) = [3]"
    by (simp_all add: np_scalar_def np_array1_def)
  from bs_result_shapes [of "np_scalar 1" "np_array1 [100, 105, 110]" "np_scalar 110"
      "np_scalar 0.2" "[3]" "''Put''" "0.05" "0.02" "np_scalar 0" "[3]"]
  show ?thesis using h1 h2 h3 h4 h5 by simp
qed

text \<open>
  C7, as stated, fails: a scalar \<open>S\<close>, two strikes and \<open>t = 0\<close>. The broadcast shape of
  the inputs is \<open>(2,)\<close>; the price has it and the five Greeks are scalars.
\<close>

theorem bs_expired_greeks_shape:
  "broadcast_all [nd_dims (np_scalar 100), nd_dims (np_array1 [90, 110]),
                  nd_dims (np_scalar 0), nd_dims (np_scalar 0.2)] = Some [2] \<and>
   (case black_scholes (np_scalar 100) (np_array1 [90, 110]) 0.05 (np_scalar 0) (np_scalar 0.2)
           ''Call'' 0 of
      Inl e \<Rightarrow> []
    | Inr (price, delta, gamma, vega, theta, rho) \<Rightarrow>
        map nd_dims [price, delta, gamma, vega, theta, rho]) = [[2], [], [], [], [], []]"
  by (simp add: black_scholes_def np_any_def np_scalar_def np_array1_def np_sub_def np_binop_def
      np_map_def np_zeros_like_def)

lemma bs_d1_at_the_money:
  "bs_d1_at (np_scalar 100) (np_scalar 100) (3 / 100) (np_scalar 1) (np_scalar (1 / 5)) (1 / 20)
     idx = 0"
  by (simp add: bs_d1_at_def d1_formula_def bc_elem_def np_scalar_def power2_eq_square)

lemma bc_elem_scalar: "bc_elem (np_scalar x) idx = x"
  by (simp add: bc_elem_def np_scalar_def)

lemma nd_elem_scalar_result: "nd_dims a = [] \<Longrightarrow> nd_elem a [] = bc_elem a idx"
  by (simp add: bc_elem_def)

text \<open>
  C4, on the code: at \<open>S = K = 100\<close>, \<open>r = 0.03\<close>, \<open>t = 1\<close>, \<open>sigma = 0.2\<close>, \<open>q = 0.05\<close>,
  where \<open>d1 = 0\<close>, the Call and the Put are returned the same delta,
  \<open>exp (- 0.05) / 2\<close>: their difference is 0 and not \<open>exp (- 0.05)\<close>. The source's Put
  delta is \<open>exp (- q t) * N (- d1)\<close>, without the minus sign of the Put's rho, so that the
  two deltas add up to \<open>exp (- q t)\<close> (\<open>bs_delta_call_plus_put\<close> below).
\<close>

theorem bs_delta_at_the_money:
  "(case black_scholes (np_scalar 100) (np_scalar 100) 0.03 (np_scalar 1) (np_scalar 0.2)
           ''Call'' 0.05 of
      Inl e \<Rightarrow> None
    | Inr (price, delta, gamma, vega, theta, rho) \<Rightarrow> Some (nd_elem delta [])) =
     Some (exp (- 0.05) / 2) \<and>
   (case black_scholes (np_scalar 100) (np_scalar 100) 0.03 (np_scalar 1) (np_scalar 0.2)
           ''Put'' 0.05 of
      Inl e \<Rightarrow> None
    | Inr (price, delta, gamma, vega, theta, rho) \<Rightarrow> Some (nd_elem delta [])) =
     Some (exp (- 0.05) / 2)"
proof -
  let ?S = "np_scalar 100" and ?t = "np_scalar 1" and ?v = "np_scalar 0.2"
  have live: "\<not> np_any (\<lambda>v. v \<le> 0) ?t"
    by (simp add: np_any_def np_scalar_def)
  have bc: "broadcast_all [nd_dims ?S, nd_dims ?S, nd_dims ?t, nd_dims ?v] = Some []"
    by (simp add: np_scalar_def)
  from black_scholes_call_live [OF live bc, of "0.03" "0.05"]
  obtain pc dc gc vc thc rhc where
    c: "black_scholes ?S ?S 0.03 ?t ?v ''Call'' 0.05 = Inr (pc, dc, gc, vc, thc, rhc)"
      "nd_dims dc = []"
      "\<forall>idx. bc_elem dc idx =
         exp (- 0.05 * bc_elem ?t idx) * norm_cdf (bs_d1_at ?S ?S 0.03 ?t ?v 0.05 idx)"
    by blast
  from black_scholes_put_live [OF live bc, of "0.03" "0.05"]
  obtain pp dp gp vp thp rhp where
    p: "black_scholes ?S ?S 0.03 ?t ?v ''Put'' 0.05 = Inr (pp, dp, gp, vp, thp, rhp)"
      "nd_dims dp = []"
      "\<forall>idx. bc_elem dp idx =
         exp (- 0.05 * bc_elem ?t idx) * norm_cdf (- bs_d1_at ?S ?S 0.03 ?t ?v 0.05 idx)"
    by blast
  have "nd_elem dc [] = exp (- 0.05) / 2"
    using c(3) by (simp add: nd_elem_scalar_result [OF c(2), of "[]"] bs_d1_at_the_money
        norm_cdf_0 bc_elem_scalar)
  moreover have "nd_elem dp [] = exp (- 0.05) / 2"
    using p(3) by (simp add: nd_elem_scalar_result [OF p(2), of "[]"] bs_d1_at_the_money
        norm_cdf_0 bc_elem_scalar)
  ultimately show ?thesis using c(1) p(1) by simp
qed

lemma bs_delta_call_plus_put:
  assumes "\<not> np_any (\<lambda>v. v \<le> 0) t"
    and "broadcast_all [nd_dims S, nd_dims K, nd_dims t, nd_dims sigma] = Some D"
  shows "\<exists>pc dc gc vc thc rhc pp dp gp vp thp rhp.
           black_scholes S K r t sigma ''Call'' q = Inr (pc, dc, gc, vc, thc, rhc) \<and>
           black_scholes S K r t sigma ''Put'' q = Inr (pp, dp, gp, vp, thp, rhp) \<and>
           (\<forall>idx. bc_elem dc idx + bc_elem dp idx = exp (- q * bc_elem t idx))"
proof -
  from black_scholes_call_live [OF assms, of r q] obtain pc dc gc vc thc rhc where
    c: "black_scholes S K r t sigma ''Call'' q = Inr (pc, dc, gc, vc, thc, rhc)"
      "\<forall>idx. bc_elem dc idx =
         exp (- q * bc_elem t idx) * norm_cdf (bs_d1_at S K r t sigma q idx)"
    by blast
  from black_scholes_put_live [OF assms, of r q] obtain pp dp gp vp thp rhp where
    p: "black_scholes S K r t sigma ''Put'' q = Inr (pp, dp, gp, vp, thp, rhp)"
      "\<forall>idx. bc_elem dp idx =
         exp (- q * bc_elem t idx) * norm_cdf (- bs_d1_at S K r t sigma q idx)"
    by blast
  have "\<forall>idx. bc_elem dc idx + bc_elem dp idx = exp (- q * bc_elem t idx)"
    using c(2) p(2) by (simp add: norm_cdf_minus algebra_simps)
  with c(1) p(1) show ?thesis by blast
qed

section \<open>Properties of \<open>monte_carlo_european\<close>\<close>

subsection \<open>Values and sums\<close>

lemma nan_lift2_None [simp]: "nan_lift2 f None y = None" "nan_lift2 f x None = None"
  by (cases x; simp)+

lemma foldl_nan_add_replicate:
  "foldl (nan_lift2 (+)) (Some a) (replicate n (Some p)) = Some (a + real n * p)"
  by (induction n arbitrary: a) (simp_all add: algebra_simps)

lemma nan_sum_replicate: "nan_sum (replicate n (Some p)) = Some (real n * p)"
  by (simp add: nan_sum_def foldl_nan_add_replicate)

lemma np_mean_replicate: "0 < n \<Longrightarrow> np_mean (replicate n (Some p)) = Some p"
  by (simp add: np_mean_def nan_sum_replicate)

subsection \<open>Reproducibility\<close>

text \<open>
  C9. Two calls with the same parameters return the same result whatever the state of
  the generator before each call: the call reseeds it with 42 before it draws. (The
  result is the raised error or the returned price; the equality is that of the model's
  real numbers.)
\<close>

theorem mc_deterministic:
  "fst (monte_carlo_european normal g1 S0 K T r sigma option_type n m) =
   fst (monte_carlo_european normal g2 S0 K T r sigma option_type n m)"
  by (simp add: monte_carlo_european_def Let_def standard_normal_def np_random_seed_def
      split: prod.splits)

subsection \<open>The option type is checked after the simulation\<close>

text \<open>
  C3, as the code has it. With an option type that is neither \<open>Call\<close> nor \<open>Put\<close>, at least
  one time step and a non-negative number of simulations, the call raises the
  invalid-option-type error and returns no price; when it raises, the generator has been
  reseeded with 42 and all \<open>num_simulations * num_steps\<close> variates have been drawn.
\<close>

theorem mc_invalid_type_after_simulation:
  assumes "option_type \<noteq> ''Call''" "option_type \<noteq> ''Put''"
    and "0 \<le> num_simulations" "1 \<le> num_steps"
  shows "monte_carlo_european normal g S0 K T r sigma option_type num_simulations num_steps =
           (Inl InvalidOptionType,
            \<lparr>rng_seed = 42, rng_drawn = nat num_simulations * nat num_steps\<rparr>)"
  using assms
  by (simp add: monte_carlo_european_def Let_def standard_normal_def np_random_seed_def
      split: prod.splits)

theorem mc_invalid_type_after_simulation_witness:
  "''call'' \<noteq> ''Call'' \<and> ''call'' \<noteq> ''Put'' \<and> (0::int) \<le> 4 \<and> (1::int) \<le> 2 \<and>
   monte_carlo_european (\<lambda>s k. 0) \<lparr>rng_seed = 7, rng_drawn = 3\<rparr> 100 110 1 0.05 0.2
       ''call'' 4 2 =
     (Inl InvalidOptionType, \<lparr>rng_seed = 42, rng_drawn = 8\<rparr>)"
  using mc_invalid_type_after_simulation
    [of "''call''" 4 2 "\<lambda>s k. 0" "\<lparr>rng_seed = 7, rng_drawn = 3\<rparr>" 100 110 1 "0.05" "0.2"]
  by simp

text \<open>
  C3, as stated, fails: one path of one step with the option type \<open>call\<close>, on a generator
  that has drawn nothing since it was seeded with 7. The error is raised, and the
  generator is left reseeded with one variate drawn.
\<close>

theorem mc_invalid_type_draws_first:
  "monte_carlo_european (\<lambda>s k. 0) \<lparr>rng_seed = 7, rng_drawn = 0\<rparr> 100 110 1 0.05 0.2
       ''call'' 1 1 =
     (Inl InvalidOptionType, \<lparr>rng_seed = 42, rng_drawn = 1\<rparr>)"
  by (simp add: monte_carlo_european_def Let_def standard_normal_def np_random_seed_def
      split: prod.splits)

subsection \<open>A single time step\<close>

lemma set_col_zeros_0:
  "set_col (np_zeros n (Suc m)) 0 (replicate n v) = replicate n (v # replicate m (Some 0))"
  by (simp add: set_col_def np_zeros_def map_replicate zip_replicate)

lemma mc_paths_one_step: "mc_paths S0 r sigma dt Z n (Suc 0) = replicate n [Some S0]"
  using set_col_zeros_0 [of n 0 "Some S0"] by (simp add: mc_paths_def)

text \<open>
  C10. With \<open>num_steps = 1\<close> and at least one simulation the loop body never runs, every
  terminal price is \<open>S0\<close>, and the call returns \<open>exp (- r T) * max (S0 - K) 0\<close> for a Call
  and \<open>exp (- r T) * max (K - S0) 0\<close> for a Put, whatever \<open>sigma\<close>, the variates and the
  state of the generator.
\<close>

theorem mc_single_step:
  assumes "1 \<le> num_simulations"
  shows "fst (monte_carlo_european normal g S0 K T r sigma ''Call'' num_simulations 1) =
           Inr (Some (exp (- r * T) * max (S0 - K) 0)) \<and>
         fst (monte_carlo_european normal g S0 K T r sigma ''Put'' num_simulations 1) =
           Inr (Some (exp (- r * T) * max (K - S0) 0))"
  using assms
  by (simp add: monte_carlo_european_def Let_def standard_normal_def mc_paths_one_step
      get_col_def mc_price_def np_mean_replicate split: prod.splits)

theorem mc_single_step_witness:
  "(1::int) \<le> 3 \<and>
   fst (monte_carlo_european (\<lambda>s k. real k) \<lparr>rng_seed = 0, rng_drawn = 0\<rparr> 100 90 2 0 0.2
          ''Call'' 3 1) = Inr (Some 10) \<and>
   fst (monte_carlo_european (\<lambda>s k. real k) \<lparr>rng_seed = 0, rng_drawn = 0\<rparr> 100 90 2 0 0.2
          ''Put'' 3 1) = Inr (Some 0)"
  using mc_single_step
    [of 3 "\<lambda>s k. real k" "\<lparr>rng_seed = 0, rng_drawn = 0\<rparr>" 100 90 2 0 "0.2"]
  by simp

subsection \<open>The path matrix, row by row\<close>

lemma mc_step_rows:
  assumes "length Z = length S"
  shows "mc_step r sigma dt Z t S = map2 (\<lambda>row z. row_step r sigma dt z t row) S Z"
  using assms
  by (auto simp: mc_step_def set_col_def get_col_def row_step_def zip_map1 zip_map2
      intro!: nth_equalityI)

lemma mc_loop_rows:
  assumes "length Z = length S"
  shows "fold (mc_step r sigma dt Z) ts S =
           map2 (\<lambda>row z. fold (row_step r sigma dt z) ts row) S Z"
  using assms
proof (induction ts arbitrary: S)
  case Nil
  then show ?case by (auto intro!: nth_equalityI)
next
  case (Cons t ts)
  have len: "length Z = length (mc_step r sigma dt Z t S)"
    using Cons.prems by (simp add: mc_step_rows)
  show ?case
    using Cons.prems
    by (simp add: Cons.IH [OF len]) (auto simp: mc_step_rows intro!: nth_equalityI)
qed

lemma nan_sum_snoc: "nan_sum (xs @ [x]) = nan_lift2 (+) (nan_sum xs) x"
  by (simp add: nan_sum_def)

lemma nan_mul_exp_add:
  "nan_lift2 (*) (nan_lift2 (*) (Some a) (map_option exp x)) (map_option exp y) =
   nan_lift2 (*) (Some a) (map_option exp (nan_lift2 (+) x y))"
  by (cases x; cases y; simp add: exp_add)

lemma gbm_path_0: "gbm_path S0 r sigma dt z 0 = Some S0"
  by (simp add: gbm_path_def nan_sum_def)

lemma gbm_path_Suc:
  "gbm_path S0 r sigma dt z (Suc j) =
     nan_lift2 (*) (gbm_path S0 r sigma dt z j)
       (map_option exp (gbm_increment r sigma dt (z ! Suc j)))"
  by (simp add: gbm_path_def nan_sum_snoc nan_mul_exp_add)

lemma row_loop_invariant:
  assumes "k < m"
  shows "fold (row_step r sigma dt z) [1..<Suc k] ((replicate m (Some 0))[0 := Some S0]) =
           map (gbm_path S0 r sigma dt z) [0..<Suc k] @ replicate (m - Suc k) (Some 0)"
  using assms
proof (induction k)
  case 0
  then show ?case
    by (cases m) (simp_all add: gbm_path_0)
next
  case (Suc k)
  let ?done = "map (gbm_path S0 r sigma dt z) [0..<Suc k]"
  from Suc.prems have k: "k < m" and rest: "m - Suc k = Suc (m - Suc (Suc k))" by simp_all
  have len: "length ?done = Suc k" by simp
  have last: "(?done @ replicate (m - Suc k) (Some 0)) ! k = gbm_path S0 r sigma dt z k"
    by (simp add: nth_append del: upt_Suc)
  have "fold (row_step r sigma dt z) [1..<Suc (Suc k)] ((replicate m (Some 0))[0 := Some S0]) =
          row_step r sigma dt z (Suc k) (?done @ replicate (m - Suc k) (Some 0))"
    using Suc.IH [OF k] by simp
  also have "\<dots> = ?done @ (gbm_path S0 r sigma dt z (Suc k) # replicate (m - Suc (Suc k)) (Some 0))"
  proof -
    have rep: "replicate (m - Suc k) (Some (0::real)) = Some 0 # replicate (m - Suc (Suc k)) (Some 0)"
      by (subst rest) simp
    show ?thesis
      unfolding row_step_def using last
      by (simp add: list_update_append rep gbm_path_Suc del: upt_Suc)
  qed
  finally show ?case by simp
qed

lemma row_loop_result:
  assumes "Suc 0 \<le> m"
  shows "fold (row_step r sigma dt z) [Suc 0..<m] ((replicate m (Some 0))[0 := Some S0]) =
           map (gbm_path S0 r sigma dt z) [0..<m]"
proof -
  from assms obtain k where m: "m = Suc k" by (cases m) auto
  then show ?thesis using row_loop_invariant [of k m r sigma dt z S0] by simp
qed

lemma mc_paths_closed:
  assumes "1 \<le> m" "length Z = n"
  shows "mc_paths S0 r sigma dt Z n m = map (\<lambda>z. map (gbm_path S0 r sigma dt z) [0..<m]) Z"
proof -
  have init: "set_col (np_zeros n m) 0 (replicate n (Some S0)) =
                replicate n ((replicate m (Some 0))[0 := Some S0])"
    by (simp add: set_col_def np_zeros_def zip_replicate map_replicate)
  show ?thesis
    unfolding mc_paths_def init using assms
    by (subst mc_loop_rows) (auto simp: row_loop_result intro!: nth_equalityI)
qed

subsection \<open>The price is never negative\<close>




lemma standard_normal_length [simp]: "length (fst (standard_normal normal n m g)) = n"
  by (simp add: standard_normal_def)




subsection \<open>The construction of the paths\<close>

lemma gbm_path_cong:
  assumes "\<forall>k. 1 \<le> k \<and> k \<le> j \<longrightarrow> z' ! k = z ! k"
  shows "gbm_path S0 r sigma dt z' j = gbm_path S0 r sigma dt z j"
proof -
  have "map (\<lambda>k. gbm_increment r sigma dt (z' ! k)) [1..<Suc j] =
        map (\<lambda>k. gbm_increment r sigma dt (z ! k)) [1..<Suc j]"
    using assms by (intro map_cong) (auto simp del: upt_Suc)
  then show ?thesis by (simp only: gbm_path_def)
qed

lemma foldl_nan_add_Some_map:
  "foldl (nan_lift2 (+)) (Some a) (map (\<lambda>x. Some (f x)) xs) = Some (a + sum_list (map f xs))"
  by (induction xs arbitrary: a) (simp_all add: algebra_simps)

lemma nan_sum_Some_map: "nan_sum (map (\<lambda>x. Some (f x)) xs) = Some (sum_list (map f xs))"
  by (simp add: nan_sum_def foldl_nan_add_Some_map)

text \<open>
  C6. With at least one step, \<open>dt = T / num_steps\<close>, \<open>Z\<close> the matrix drawn after seeding
  with 42 and \<open>P\<close> the matrix of paths: \<open>monte_carlo_european\<close> prices the payoffs of the
  last column of \<open>P\<close>; every path starts at \<open>S0\<close>; each later entry is the entry before it
  times \<open>exp ((r - 0.5 sigma\<^sup>2) dt + sigma sqrt dt Z[i, j])\<close>; the terminal price is \<open>S0\<close>
  times the exponential of the sum of the increments of the columns \<open>1 .. m - 1\<close> (a
  real number, spelled out, when \<open>T\<close> is not negative). \<open>Z\<close> has \<open>n\<close> rows of \<open>m\<close> variates
  and \<open>n * m\<close> variates have been drawn, column 0 among them, yet \<open>P\<close> is the same for
  every matrix that agrees with \<open>Z\<close> on the columns \<open>1 .. m - 1\<close>: column 0 is never read.
\<close>

theorem mc_path_construction:
  assumes M: "1 \<le> num_steps" and N: "0 \<le> num_simulations"
    and n: "n = nat num_simulations" and m: "m = nat num_steps"
    and dt: "dt = T / real_of_int num_steps"
    and Z: "Z = fst (standard_normal normal n m (np_random_seed 42 g))"
    and P: "P = mc_paths S0 r sigma dt Z n m"
  shows "fst (monte_carlo_european normal g S0 K T r sigma ''Call'' num_simulations num_steps) =
           Inr (mc_price r T
             (map (\<lambda>s. nan_lift2 max (nan_lift2 (-) s (Some K)) (Some 0)) (get_col P (m - 1)))) \<and>
         fst (monte_carlo_european normal g S0 K T r sigma ''Put'' num_simulations num_steps) =
           Inr (mc_price r T
             (map (\<lambda>s. nan_lift2 max (nan_lift2 (-) (Some K) s) (Some 0)) (get_col P (m - 1)))) \<and>
         (\<forall>i<n. P ! i ! 0 = Some S0 \<and>
            (\<forall>j. 1 \<le> j \<and> j < m \<longrightarrow>
               P ! i ! j = nan_lift2 (*) (P ! i ! (j - 1))
                             (map_option exp (gbm_increment r sigma dt (Z ! i ! j)))) \<and>
            get_col P (m - 1) ! i =
              nan_lift2 (*) (Some S0)
                (map_option exp
                  (nan_sum (map (\<lambda>j. gbm_increment r sigma dt (Z ! i ! j)) [1..<m])))) \<and>
         (0 \<le> T \<longrightarrow>
            (\<forall>i<n. get_col P (m - 1) ! i =
               Some (S0 * exp (\<Sum>j = 1..<m.
                       (r - 0.5 * sigma\<^sup>2) * dt + sigma * sqrt dt * (Z ! i ! j))))) \<and>
         length Z = n \<and> (\<forall>i<n. length (Z ! i) = m) \<and>
         rng_drawn (snd (standard_normal normal n m (np_random_seed 42 g))) = n * m \<and>
         (\<forall>Z'. length Z' = n \<and> (\<forall>i<n. \<forall>j. 1 \<le> j \<and> j < m \<longrightarrow> Z' ! i ! j = Z ! i ! j) \<longrightarrow>
               mc_paths S0 r sigma dt Z' n m = P)"
proof -
  have m1: "1 \<le> m" using M m by simp
  have len: "length Z = n" by (simp add: Z)
  have closed: "P = map (\<lambda>z. map (gbm_path S0 r sigma dt z) [0..<m]) Z"
    unfolding P by (rule mc_paths_closed [OF m1 len])
  have entry: "P ! i ! j = gbm_path S0 r sigma dt (Z ! i) j" if "i < n" "j < m" for i j
    using that len by (simp add: closed)
  have call: "fst (monte_carlo_european normal g S0 K T r sigma ''Call'' num_simulations num_steps) =
           Inr (mc_price r T
             (map (\<lambda>s. nan_lift2 max (nan_lift2 (-) s (Some K)) (Some 0)) (get_col P (m - 1))))"
    using M N by (simp add: monte_carlo_european_def Let_def P Z n m dt split: prod.splits)
  have put: "fst (monte_carlo_european normal g S0 K T r sigma ''Put'' num_simulations num_steps) =
           Inr (mc_price r T
             (map (\<lambda>s. nan_lift2 max (nan_lift2 (-) (Some K) s) (Some 0)) (get_col P (m - 1))))"
    using M N by (simp add: monte_carlo_european_def Let_def P Z n m dt split: prod.splits)
  have rows: "P ! i ! 0 = Some S0 \<and>
            (\<forall>j. 1 \<le> j \<and> j < m \<longrightarrow>
               P ! i ! j = nan_lift2 (*) (P ! i ! (j - 1))
                             (map_option exp (gbm_increment r sigma dt (Z ! i ! j)))) \<and>
            get_col P (m - 1) ! i =
              nan_lift2 (*) (Some S0)
                (map_option exp
                  (nan_sum (map (\<lambda>j. gbm_increment r sigma dt (Z ! i ! j)) [1..<m])))"
    if i: "i < n" for i
  proof (intro conjI allI impI)
    show "P ! i ! 0 = Some S0"
      using entry [OF i, of 0] m1 by (simp add: gbm_path_0)
  next
    fix j assume j: "1 \<le> j \<and> j < m"
    then obtain j' where j': "j = Suc j'" by (cases j) auto
    with j have "j' < m" by simp
    with j j' show "P ! i ! j = nan_lift2 (*) (P ! i ! (j - 1))
                             (map_option exp (gbm_increment r sigma dt (Z ! i ! j)))"
      using entry [OF i, of j] entry [OF i, of j'] by (simp add: gbm_path_Suc)
  next
    from m1 obtain k where k: "m = Suc k" by (cases m) auto
    have "get_col P (m - 1) ! i = P ! i ! (m - 1)"
      using i len by (simp add: get_col_def closed)
    then show "get_col P (m - 1) ! i =
              nan_lift2 (*) (Some S0)
                (map_option exp
                  (nan_sum (map (\<lambda>j. gbm_increment r sigma dt (Z ! i ! j)) [1..<m])))"
      using entry [OF i, of k] k by (simp add: gbm_path_def del: upt_Suc)
  qed
  have real_form: "\<forall>i<n. get_col P (m - 1) ! i =
               Some (S0 * exp (\<Sum>j = 1..<m.
                       (r - 0.5 * sigma\<^sup>2) * dt + sigma * sqrt dt * (Z ! i ! j)))"
    if T: "0 \<le> T"
  proof (intro allI impI)
    fix i assume i: "i < n"
    have "0 \<le> dt" using T M by (simp add: dt)
    then have inc: "gbm_increment r sigma dt z =
        Some ((r - 0.5 * sigma\<^sup>2) * dt + sigma * sqrt dt * z)" for z
      by (simp add: gbm_increment_def np_sqrt_def)
    show "get_col P (m - 1) ! i =
               Some (S0 * exp (\<Sum>j = 1..<m.
                       (r - 0.5 * sigma\<^sup>2) * dt + sigma * sqrt dt * (Z ! i ! j)))"
      using rows [OF i]
      by (simp add: inc nan_sum_Some_map interv_sum_list_conv_sum_set_nat del: upt_Suc)
  qed
  have zrows: "\<forall>i<n. length (Z ! i) = m"
    by (simp add: Z standard_normal_def)
  have drawn: "rng_drawn (snd (standard_normal normal n m (np_random_seed 42 g))) = n * m"
    by (simp add: standard_normal_def np_random_seed_def)
  have unused: "mc_paths S0 r sigma dt Z' n m = P"
    if Z': "length Z' = n \<and> (\<forall>i<n. \<forall>j. 1 \<le> j \<and> j < m \<longrightarrow> Z' ! i ! j = Z ! i ! j)" for Z'
  proof -
    have "map (\<lambda>z. map (gbm_path S0 r sigma dt z) [0..<m]) Z' =
          map (\<lambda>z. map (gbm_path S0 r sigma dt z) [0..<m]) Z"
      using Z' len by (auto intro!: nth_equalityI gbm_path_cong)
    then show ?thesis
      using mc_paths_closed [OF m1, of Z' n S0 r sigma dt] Z' closed by simp
  qed
  from call put rows real_form len zrows drawn unused show ?thesis by blast
qed

theorem mc_path_construction_witness:
  "(1::int) \<le> 3 \<and> (0::int) \<le> 2 \<and>
   mc_paths 100 0 0.2 (1 / real_of_int 3)
     (fst (standard_normal (\<lambda>s k. real k) (nat 2) (nat 3)
            (np_random_seed 42 \<lparr>rng_seed = 0, rng_drawn = 0\<rparr>)))
     (nat 2) (nat 3) ! 1 ! 0 = Some 100 \<and>
   rng_drawn (snd (standard_normal (\<lambda>s k. real k) (nat 2) (nat 3)
            (np_random_seed 42 \<lparr>rng_seed = 0, rng_drawn = 0\<rparr>))) = nat 2 * nat 3"
proof -
  have h1: "(1::int) \<le> 3" and h2: "(0::int) \<le> 2" and i: "(1::nat) < nat 2" by simp_all
  note w = mc_path_construction [OF h1 h2 refl refl refl refl refl,
      of "\<lambda>s k. real k" "\<lparr>rng_seed = 0, rng_drawn = 0\<rparr>" 100 110 1 0 "0.2"]
  note first = w [THEN conjunct2, THEN conjunct2, THEN conjunct1, rule_format, OF i,
      THEN conjunct1]
  note drawn = w [THEN conjunct2, THEN conjunct2, THEN conjunct2, THEN conjunct2,
      THEN conjunct2, THEN conjunct2, THEN conjunct1]
  from h1 h2 first drawn show ?thesis by (intro conjI)
qed

end
